theory Spec2Isabelle
  imports
    Main
    "HOL-Library.Log_Nat"
    "HOL-Library.Char_ord"
    "HOL-Library.List_Lexorder"
begin

section \<open>Python values used by the analytics service\<close>

text \<open>
  The analytics service (\<^verbatim>\<open>app/services/analytics_service.py\<close>) computes every
  percentage as \<^verbatim>\<open>round(count / total * 100)\<close>: a true division of two Python
  integers (the correctly rounded binary64 quotient), a binary64 multiplication by 100,
  and \<^verbatim>\<open>round\<close> of a float to an integer (ties to the even integer). Binary64 values
  are modelled as the rationals they denote; \<open>fl\<close> rounds a rational to the nearest
  value with a 53-bit significand, ties to even. The exponent range is not bounded in
  the model: it agrees with binary64 for magnitudes between \<open>2 ^ -1022\<close> and
  \<open>2 ^ 1024\<close>, which covers every quotient of row counts below \<open>2 ^ 1022\<close>.
\<close>

datatype py_error = ZeroDivisionError

definition round_half_even :: "rat \<Rightarrow> int" where
  "round_half_even x =
     (let f = \<lfloor>x\<rfloor>; d = x - of_int f
      in if d < 1 / 2 then f else if 1 / 2 < d then f + 1 else if even f then f else f + 1)"

definition float_exp :: "rat \<Rightarrow> int" where
  "float_exp x =
     (let (p, q) = quotient_of \<bar>x\<bar>; d = bitlen p - bitlen q
      in if 2 powi d \<le> \<bar>x\<bar> then d else d - 1)"

definition fl :: "rat \<Rightarrow> rat" where
  "fl x = (if x = 0 then 0
           else let u = 2 powi (float_exp x - 52) in of_int (round_half_even (x / u)) * u)"

text \<open>\<^verbatim>\<open>round(count / total * 100)\<close>; the division raises on a zero total.\<close>

definition float_pct :: "int \<Rightarrow> int \<Rightarrow> int" where
  "float_pct cnt tot = round_half_even (fl (fl (of_int cnt / of_int tot) * 100))"

definition py_pct :: "int \<Rightarrow> int \<Rightarrow> py_error + int" where
  "py_pct cnt tot = (if tot = 0 then Inl ZeroDivisionError else Inr (float_pct cnt tot))"

text \<open>A \<^verbatim>\<open>for\<close> loop that appends one computed entry per element and stops at the
  first exception.\<close>

fun map_result :: "('a \<Rightarrow> 'e + 'b) \<Rightarrow> 'a list \<Rightarrow> 'e + 'b list" where
  "map_result f [] = Inr []"
| "map_result f (x # xs) =
     (case f x of
        Inl e \<Rightarrow> Inl e
      | Inr y \<Rightarrow> (case map_result f xs of Inl e \<Rightarrow> Inl e | Inr ys \<Rightarrow> Inr (y # ys)))"

text \<open>
  \<^verbatim>\<open>collections.Counter\<close> is a dict: keys keep the order of their first insertion.
  \<^verbatim>\<open>c[k] += 1\<close> adds one to an existing key in place and appends a missing key
  with count 1. \<^verbatim>\<open>most_common()\<close> is \<^verbatim>\<open>sorted(items, key=count, reverse=True)\<close>,
  a stable sort, and \<^verbatim>\<open>most_common(n)\<close> is its first \<open>n\<close> entries.
\<close>

type_synonym 'k counter = "('k \<times> int) list"

fun counter_incr :: "'k \<Rightarrow> 'k counter \<Rightarrow> 'k counter" where
  "counter_incr k [] = [(k, 1)]"
| "counter_incr k ((k', c) # kvs) =
     (if k = k' then (k', c + 1) # kvs else (k', c) # counter_incr k kvs)"

definition counter_get :: "'k counter \<Rightarrow> 'k \<Rightarrow> int" where
  "counter_get kvs k = (case map_of kvs k of None \<Rightarrow> 0 | Some c \<Rightarrow> c)"

definition most_common :: "'k counter \<Rightarrow> 'k counter" where
  "most_common kvs = sort_key (\<lambda>kc. - snd kc) kvs"

definition most_common_n :: "nat \<Rightarrow> 'k counter \<Rightarrow> 'k counter" where
  "most_common_n n kvs = take n (most_common kvs)"

text \<open>Decimal text of an integer, as \<^verbatim>\<open>str\<close> and the f-string conversions give it.\<close>

fun str_of_nat :: "nat \<Rightarrow> string" where
  "str_of_nat n =
     (if n < 10 then [''0123456789'' ! n]
      else str_of_nat (n div 10) @ [''0123456789'' ! (n mod 10)])"

definition str_of_int :: "int \<Rightarrow> string" where
  "str_of_int k = (if k < 0 then ''-'' @ str_of_nat (nat (- k)) else str_of_nat (nat k))"

section \<open>Rows read by the analytics repository\<close>

text \<open>
  A row of \<^verbatim>\<open>calls\<close> as the repository returns it (\<^verbatim>\<open>dict(row)\<close>); a nullable
  column is an option. \<open>agreed_rate\<close> is the column joined from \<^verbatim>\<open>booked_loads\<close>
  by \<^verbatim>\<open>get_all_calls_last_30_days\<close>; the other queries do not select it, and
  \<^verbatim>\<open>call.get("agreed_rate")\<close> reads \<^verbatim>\<open>None\<close> there.
\<close>

record call =
  call_id :: string
  outcome :: "string option"
  negotiation_rounds :: "int option"
  equipment_type :: "string option"
  lane_origin :: "string option"
  lane_destination :: "string option"
  final_rate :: "rat option"
  agreed_rate :: "rat option"

record negotiation_depth_bucket =
  nd_round :: string
  nd_pct :: int

record carrier_objection =
  co_reason :: string
  co_count :: int
  co_pct :: int

record top_lane =
  tl_lane :: string
  tl_calls :: int
  tl_bookings :: int
  tl_avg_rate :: string

record equipment_demand_supply_row =
  eq_type :: string
  eq_demand :: int
  eq_supply :: int

record analytics_response =
  negotiation_depth_list :: "negotiation_depth_bucket list"
  carrier_objections_list :: "carrier_objection list"
  top_lanes_list :: "top_lane list"
  equipment_demand_supply_list :: "equipment_demand_supply_row list"

text \<open>The results of the five repository queries that one analytics request reads.\<close>

record analytics_inputs =
  booked_calls_last_30_days :: "call list"
  failed_calls_last_30_days :: "call list"
  all_calls_last_30_days :: "call list"
  available_loads_by_equipment :: "(string \<times> int) list"
  recent_calls_by_equipment :: "(string \<times> int) list"

section \<open>Negotiation depth\<close>

definition depth_labels :: "int \<Rightarrow> string" where
  "depth_labels key =
     (if key = 0 then ''1st offer''
      else if key = 1 then ''1 round''
      else if key = 2 then ''2 rounds''
      else if key = 3 then ''3 rounds (max)''
      else str_of_int key @ '' rounds'')"

text \<open>\<^verbatim>\<open>min(call.get("negotiation_rounds", 0) or 0, 3)\<close>\<close>

definition depth_key :: "call \<Rightarrow> int" where
  "depth_key c = min (case negotiation_rounds c of None \<Rightarrow> 0 | Some r \<Rightarrow> r) 3"

definition depth_buckets :: "call list \<Rightarrow> int counter" where
  "depth_buckets booked = fold (\<lambda>c b. counter_incr (depth_key c) b) booked []"

definition negotiation_depth :: "call list \<Rightarrow> py_error + negotiation_depth_bucket list" where
  "negotiation_depth booked =
     (if booked = [] then Inr []
      else
        let buckets = depth_buckets booked;
            total = sum_list (map snd buckets)
        in map_result
             (\<lambda>key. case py_pct (counter_get buckets key) total of
                      Inl e \<Rightarrow> Inl e
                    | Inr p \<Rightarrow> Inr \<lparr>nd_round = depth_labels key, nd_pct = p\<rparr>)
             (sort (map fst buckets)))"

section \<open>Carrier objections\<close>

definition failed_reason :: "call \<Rightarrow> string option" where
  "failed_reason c =
     (if outcome c = Some ''negotiation_failed'' then Some ''Rate too low''
      else if outcome c = Some ''dropped_call'' then Some ''Call dropped''
      else None)"

definition no_loads_reason :: "call \<Rightarrow> string option" where
  "no_loads_reason c =
     (if outcome c = Some ''no_loads_available'' then Some ''No matching loads'' else None)"

definition count_reason :: "(call \<Rightarrow> string option) \<Rightarrow> call \<Rightarrow> string counter \<Rightarrow> string counter" where
  "count_reason f c reasons = (case f c of None \<Rightarrow> reasons | Some r \<Rightarrow> counter_incr r reasons)"

definition objection_reasons :: "call list \<Rightarrow> call list \<Rightarrow> string counter" where
  "objection_reasons failed all_calls =
     fold (count_reason no_loads_reason) all_calls (fold (count_reason failed_reason) failed [])"

definition carrier_objections :: "call list \<Rightarrow> call list \<Rightarrow> py_error + carrier_objection list" where
  "carrier_objections failed all_calls =
     (let reasons = objection_reasons failed all_calls
      in if reasons = [] then Inr []
         else
           let total = sum_list (map snd reasons)
           in map_result
                (\<lambda>(reason, count). case py_pct count total of
                     Inl e \<Rightarrow> Inl e
                   | Inr p \<Rightarrow> Inr \<lparr>co_reason = reason, co_count = count, co_pct = p\<rparr>)
                (most_common reasons))"

section \<open>Top lanes\<close>

text \<open>Python truthiness of a nullable string and of a nullable number.\<close>

definition truthy_str :: "string option \<Rightarrow> bool" where
  "truthy_str s = (case s of None \<Rightarrow> False | Some t \<Rightarrow> t \<noteq> [])"

definition truthy_num :: "rat option \<Rightarrow> bool" where
  "truthy_num r = (case r of None \<Rightarrow> False | Some v \<Rightarrow> v \<noteq> 0)"

text \<open>The lane key \<^verbatim>\<open>f"{origin} \u2192 {dest}"\<close>; the arrow U+2192 is written as its
  three UTF-8 bytes.\<close>

definition arrow :: string where
  "arrow = [CHR 0xE2, CHR 0x86, CHR 0x92]"

definition lane_key :: "string \<Rightarrow> string \<Rightarrow> string" where
  "lane_key origin dest = origin @ '' '' @ arrow @ '' '' @ dest"

text \<open>\<^verbatim>\<open>call.get("agreed_rate") or call.get("final_rate")\<close>\<close>

definition agreed_or_final :: "call \<Rightarrow> rat option" where
  "agreed_or_final c = (if truthy_num (agreed_rate c) then agreed_rate c else final_rate c)"

text \<open>\<^verbatim>\<open>lane_rates[lane].append(x)\<close> on a \<^verbatim>\<open>defaultdict(list)\<close>.\<close>

fun rates_append :: "string \<Rightarrow> rat \<Rightarrow> (string \<times> rat list) list \<Rightarrow> (string \<times> rat list) list" where
  "rates_append k x [] = [(k, [x])]"
| "rates_append k x ((k', xs) # kvs) =
     (if k = k' then (k', xs @ [x]) # kvs else (k', xs) # rates_append k x kvs)"

definition rates_get :: "(string \<times> rat list) list \<Rightarrow> string \<Rightarrow> rat list" where
  "rates_get kvs k = (case map_of kvs k of None \<Rightarrow> [] | Some xs \<Rightarrow> xs)"

record lane_state =
  lane_calls :: "string counter"
  lane_bookings :: "string counter"
  lane_rates :: "(string \<times> rat list) list"

definition lane_step :: "call \<Rightarrow> lane_state \<Rightarrow> lane_state" where
  "lane_step c st =
     (if \<not> truthy_str (lane_origin c) \<or> \<not> truthy_str (lane_destination c) then st
      else
        let lane = lane_key (the (lane_origin c)) (the (lane_destination c));
            st1 = st\<lparr>lane_calls := counter_incr lane (lane_calls st)\<rparr>
        in if outcome c = Some ''booked'' then
             let st2 = st1\<lparr>lane_bookings := counter_incr lane (lane_bookings st1)\<rparr>
             in (case agreed_or_final c of
                   None \<Rightarrow> st2
                 | Some agreed \<Rightarrow> st2\<lparr>lane_rates := rates_append lane (fl agreed) (lane_rates st2)\<rparr>)
           else st1)"

definition lane_scan :: "call list \<Rightarrow> lane_state" where
  "lane_scan all_calls =
     fold lane_step all_calls \<lparr>lane_calls = [], lane_bookings = [], lane_rates = []\<rparr>"

text \<open>
  \<^verbatim>\<open>sum(rates)\<close> starts from the integer 0 and adds the floats from left to right,
  rounding each partial sum (from Python 3.12 on, \<^verbatim>\<open>sum\<close> compensates the rounding
  errors; both agree whenever every partial sum is a binary64 value, as for whole-dollar
  rates). \<^verbatim>\<open>f"${avg:,.0f}"\<close> prints the float rounded to an integer, ties to even,
  with a comma between groups of three digits.
\<close>

definition float_sum :: "rat list \<Rightarrow> rat" where
  "float_sum rates = fold (\<lambda>r acc. fl (acc + r)) rates 0"

fun group3 :: "string \<Rightarrow> string" where
  "group3 (a # b # c # d # rest) = a # b # c # CHR '','' # group3 (d # rest)"
| "group3 ds = ds"

definition thousands :: "nat \<Rightarrow> string" where
  "thousands n = rev (group3 (rev (str_of_nat n)))"

definition format_money :: "rat \<Rightarrow> string" where
  "format_money avg =
     ''$'' @ (if avg < 0 then ''-'' else '''') @ thousands (nat \<bar>round_half_even avg\<bar>)"

definition lane_avg_rate :: "rat list \<Rightarrow> string" where
  "lane_avg_rate rates =
     (if rates = [] then ''$0''
      else format_money (fl (float_sum rates / of_nat (length rates))))"

definition top_lanes :: "call list \<Rightarrow> py_error + top_lane list" where
  "top_lanes all_calls =
     (let st = lane_scan all_calls
      in if lane_calls st = [] then Inr []
         else Inr (map (\<lambda>(lane, calls_count).
                          \<lparr>tl_lane = lane,
                           tl_calls = calls_count,
                           tl_bookings = counter_get (lane_bookings st) lane,
                           tl_avg_rate = lane_avg_rate (rates_get (lane_rates st) lane)\<rparr>)
                       (most_common_n 5 (lane_calls st))))"

section \<open>Equipment demand and supply\<close>

text \<open>
  \<^verbatim>\<open>str.title()\<close> on ASCII text: a letter that follows a letter is lowered, any
  other letter is raised. Bytes outside ASCII are left as they are.
\<close>

definition is_upper :: "char \<Rightarrow> bool" where
  "is_upper c = (65 \<le> (of_char c :: nat) \<and> (of_char c :: nat) \<le> 90)"

definition is_lower :: "char \<Rightarrow> bool" where
  "is_lower c = (97 \<le> (of_char c :: nat) \<and> (of_char c :: nat) \<le> 122)"

definition to_upper :: "char \<Rightarrow> char" where
  "to_upper c = (if is_lower c then char_of ((of_char c :: nat) - 32) else c)"

definition to_lower :: "char \<Rightarrow> char" where
  "to_lower c = (if is_upper c then char_of ((of_char c :: nat) + 32) else c)"

fun title_from :: "bool \<Rightarrow> string \<Rightarrow> string" where
  "title_from prev [] = []"
| "title_from prev (c # cs) =
     (if is_upper c \<or> is_lower c
      then (if prev then to_lower c else to_upper c) # title_from True cs
      else c # title_from False cs)"

definition equip_labels :: "string \<Rightarrow> string option" where
  "equip_labels raw =
     (if raw = ''dry_van'' then Some ''Dry Van''
      else if raw = ''reefer'' then Some ''Reefer''
      else if raw = ''flatbed'' then Some ''Flatbed''
      else if raw = ''step_deck'' then Some ''Step Deck''
      else if raw = ''power_only'' then Some ''Power Only''
      else None)"

definition format_equip :: "string \<Rightarrow> string" where
  "format_equip raw =
     (case equip_labels raw of
        Some label \<Rightarrow> label
      | None \<Rightarrow> title_from False (map (\<lambda>c. if c = CHR ''_'' then CHR '' '' else c) raw))"

text \<open>A \<^verbatim>\<open>dict[str, int]\<close> of counts per equipment type: an association list with
  distinct keys. \<^verbatim>\<open>sum(d.values()) or 1\<close> replaces a zero total by 1.\<close>

definition dict_get :: "(string \<times> int) list \<Rightarrow> string \<Rightarrow> int" where
  "dict_get d k = (case map_of d k of None \<Rightarrow> 0 | Some v \<Rightarrow> v)"

definition total_or_1 :: "(string \<times> int) list \<Rightarrow> int" where
  "total_or_1 d = (let s = sum_list (map snd d) in if s = 0 then 1 else s)"

definition all_types :: "(string \<times> int) list \<Rightarrow> (string \<times> int) list \<Rightarrow> string list" where
  "all_types demand_raw supply_raw = sort (remdups (map fst demand_raw @ map fst supply_raw))"

definition equipment_row ::
  "(string \<times> int) list \<Rightarrow> (string \<times> int) list \<Rightarrow> string \<Rightarrow> py_error + equipment_demand_supply_row" where
  "equipment_row demand_raw supply_raw eq =
     (case py_pct (dict_get demand_raw eq) (total_or_1 demand_raw) of
        Inl e \<Rightarrow> Inl e
      | Inr demand_pct \<Rightarrow>
          (case py_pct (dict_get supply_raw eq) (total_or_1 supply_raw) of
             Inl e \<Rightarrow> Inl e
           | Inr supply_pct \<Rightarrow>
               Inr \<lparr>eq_type = format_equip eq, eq_demand = demand_pct, eq_supply = supply_pct\<rparr>))"

definition equipment_demand_supply ::
  "(string \<times> int) list \<Rightarrow> (string \<times> int) list \<Rightarrow> py_error + equipment_demand_supply_row list" where
  "equipment_demand_supply demand_raw supply_raw =
     (if all_types demand_raw supply_raw = [] then Inr []
      else
        (case map_result (equipment_row demand_raw supply_raw) (all_types demand_raw supply_raw) of
           Inl e \<Rightarrow> Inl e
         | Inr result \<Rightarrow> Inr (sort_key (\<lambda>x. - eq_demand x) result)))"

section \<open>The analytics entry point\<close>

definition get_analytics :: "analytics_inputs \<Rightarrow> py_error + analytics_response" where
  "get_analytics db =
     (case negotiation_depth (booked_calls_last_30_days db) of
        Inl e \<Rightarrow> Inl e
      | Inr depth \<Rightarrow>
     (case carrier_objections (failed_calls_last_30_days db) (all_calls_last_30_days db) of
        Inl e \<Rightarrow> Inl e
      | Inr objections \<Rightarrow>
     (case top_lanes (all_calls_last_30_days db) of
        Inl e \<Rightarrow> Inl e
      | Inr lanes \<Rightarrow>
     (case equipment_demand_supply (available_loads_by_equipment db) (recent_calls_by_equipment db) of
        Inl e \<Rightarrow> Inl e
      | Inr equipment \<Rightarrow>
          Inr \<lparr>negotiation_depth_list = depth,
               carrier_objections_list = objections,
               top_lanes_list = lanes,
               equipment_demand_supply_list = equipment\<rparr>))))"

section \<open>Specification-level notions used by the theorems\<close>

text \<open>The keys of a sequence in the order of their first occurrence, and the counter
  that a loop of \<^verbatim>\<open>c[k] += 1\<close> over a sequence of keys builds.\<close>

definition first_seen :: "'a list \<Rightarrow> 'a list" where
  "first_seen ks = rev (remdups (rev ks))"

definition count_keys :: "'k list \<Rightarrow> 'k counter" where
  "count_keys ks = fold counter_incr ks []"

text \<open>The objection labels in the order the two loops of \<^verbatim>\<open>_carrier_objections\<close>
  meet them: the failed and dropped calls first, then the calls without a matching load.\<close>

definition objection_labels :: "call list \<Rightarrow> call list \<Rightarrow> string list" where
  "objection_labels failed all_calls =
     List.map_filter failed_reason failed @ List.map_filter no_loads_reason all_calls"

definition objection_entry :: "string list \<Rightarrow> string \<Rightarrow> carrier_objection" where
  "objection_entry labels l =
     \<lparr>co_reason = l, co_count = int (count_list labels l),
      co_pct = float_pct (int (count_list labels l)) (int (length labels))\<rparr>"

text \<open>A call row of which only the outcome is known.\<close>

definition call_of_outcome :: "string \<Rightarrow> call" where
  "call_of_outcome oc =
     \<lparr>call_id = [], outcome = Some oc, negotiation_rounds = None, equipment_type = None,
      lane_origin = None, lane_destination = None, final_rate = None, agreed_rate = None\<rparr>"

text \<open>The bucket that the specification describes for depth \<open>k\<close>, given the depths of
  the booked calls.\<close>

definition depth_entry :: "int list \<Rightarrow> int \<Rightarrow> negotiation_depth_bucket" where
  "depth_entry keys k =
     \<lparr>nd_round = depth_labels k,
      nd_pct = float_pct (int (count_list keys k)) (int (length keys))\<rparr>"

text \<open>A call that names both ends of its lane.\<close>

definition has_both_endpoints :: "call \<Rightarrow> bool" where
  "has_both_endpoints c = (truthy_str (lane_origin c) \<and> truthy_str (lane_destination c))"

text \<open>The percentage as the specification words it: zero when the total is zero,
  \<open>round(count / total * 100)\<close> otherwise; and the row it describes for one equipment type,
  each side taken against its own total.\<close>

definition guarded_pct :: "int \<Rightarrow> int \<Rightarrow> int" where
  "guarded_pct cnt tot = (if tot = 0 then 0 else float_pct cnt tot)"

definition equipment_spec_row ::
  "(string \<times> int) list \<Rightarrow> (string \<times> int) list \<Rightarrow> string \<Rightarrow> equipment_demand_supply_row" where
  "equipment_spec_row demand_raw supply_raw eq =
     \<lparr>eq_type = format_equip eq,
      eq_demand = guarded_pct (dict_get demand_raw eq) (sum_list (map snd demand_raw)),
      eq_supply = guarded_pct (dict_get supply_raw eq) (sum_list (map snd supply_raw))\<rparr>"

text \<open>The percentages of one list add up to 100 within the number of buckets minus one.\<close>

definition pct_sum_ok :: "int list \<Rightarrow> bool" where
  "pct_sum_ok ps = (\<bar>sum_list ps - 100\<bar> \<le> int (length ps) - 1)"

section \<open>Booking\<close>

text \<open>
  The tables that the booking path reads and writes, with the columns that the SQL of
  \<^verbatim>\<open>app/db/repositories/booked_load_repo.py\<close> and
  \<^verbatim>\<open>app/db/repositories/analytics_repo.py\<close> names. A table is the list of its rows; the
  schema is not among the sources, so no key or uniqueness constraint is assumed and an
  \<^verbatim>\<open>INSERT\<close> always succeeds.
\<close>

record load =
  load_id :: string
  load_equipment_type :: string
  status :: string
  origin :: string
  destination :: string
  loadboard_rate :: rat
  booked_at :: "string option"

record booked_load =
  bl_id :: string
  bl_load_id :: string
  mc_number :: string
  carrier_name :: "string option"
  bl_agreed_rate :: rat
  agreed_pickup_datetime :: "string option"
  offer_id :: "string option"
  bl_call_id :: "string option"
  created_at :: string

text \<open>Modelled from the spec: the request class \<^verbatim>\<open>BookedLoadRequest\<close>
  (\<^verbatim>\<open>app/models/offer.py\<close> is not among the sources), with the input fields that
  section 4.3 lists: \<open>load_id\<close>, \<open>mc_number\<close> and \<open>agreed_rate\<close> required, the
  others optional.\<close>

record booking_request =
  req_load_id :: string
  req_mc_number :: string
  req_agreed_rate :: rat
  req_carrier_name :: "string option"
  req_agreed_pickup_datetime :: "string option"
  req_offer_id :: "string option"
  req_call_id :: "string option"

record database =
  loads :: "load list"
  booked_loads :: "booked_load list"

text \<open>
  \<^verbatim>\<open>insert_booked_load\<close>: the identifier is \<^verbatim>\<open>"BK-"\<close> followed by the first eight
  hexadecimal digits of a fresh UUID, and the creation time is the current UTC time; both
  are arguments here (\<open>token\<close>, \<open>now\<close>). Inside one \<^verbatim>\<open>with get_db()\<close> block the
  function inserts the booking row and sets \<open>status\<close> and \<open>booked_at\<close> of every load
  row with that \<open>load_id\<close>. It checks nothing itself.
\<close>

definition insert_booked_load ::
  "string \<Rightarrow> string \<Rightarrow> booking_request \<Rightarrow> database \<Rightarrow> booked_load \<times> database" where
  "insert_booked_load token now booking db =
     (let row = \<lparr>bl_id = ''BK-'' @ token,
                 bl_load_id = req_load_id booking,
                 mc_number = req_mc_number booking,
                 carrier_name = req_carrier_name booking,
                 bl_agreed_rate = req_agreed_rate booking,
                 agreed_pickup_datetime = req_agreed_pickup_datetime booking,
                 offer_id = req_offer_id booking,
                 bl_call_id = req_call_id booking,
                 created_at = now\<rparr>
      in (row,
          db\<lparr>booked_loads := booked_loads db @ [row],
             loads := map (\<lambda>l. if load_id l = req_load_id booking
                                then l\<lparr>status := ''booked'', booked_at := Some now\<rparr>
                                else l)
                        (loads db)\<rparr>))"

text \<open>Modelled from the spec: the two failures of \<^verbatim>\<open>bookLoad\<close> named in sections 4.3
  and 7 (the service module \<^verbatim>\<open>app/services/booked_load_service.py\<close> is not among the
  sources).\<close>

datatype booking_error = NotFound | Conflict

text \<open>Modelled from the spec: the lookup of one load by its identifier (step 1 of section
  4.3; the load repository is not among the sources).\<close>

definition get_load_by_id :: "database \<Rightarrow> string \<Rightarrow> load option" where
  "get_load_by_id db lid = find (\<lambda>l. load_id l = lid) (loads db)"

text \<open>Modelled from the spec: \<^verbatim>\<open>book_load\<close> of
  \<^verbatim>\<open>app/services/booked_load_service.py\<close>, which is not among the sources, following the
  algorithm of section 4.3: look the load up (absent gives \<open>NotFound\<close>), require the
  status \<open>available\<close> (otherwise \<open>Conflict\<close>), then insert the booking and update the
  load through \<open>insert_booked_load\<close>. The pair \<^verbatim>\<open>(result, error)\<close> that the route
  unpacks is the sum type here.\<close>

definition book_load ::
  "string \<Rightarrow> string \<Rightarrow> booking_request \<Rightarrow> database
     \<Rightarrow> (booking_error + booked_load) \<times> database" where
  "book_load token now req db =
     (case get_load_by_id db (req_load_id req) of
        None \<Rightarrow> (Inl NotFound, db)
      | Some l \<Rightarrow>
          if status l \<noteq> ''available'' then (Inl Conflict, db)
          else (case insert_booked_load token now req db of
                  (row, db') \<Rightarrow> (Inr row, db')))"

text \<open>Modelled from the spec: the message of each failure, as section 4.3 words it
  ("no such load", "already booked"); the route tells the two apart by the text.\<close>

definition error_text :: "booking_error \<Rightarrow> string" where
  "error_text e = (case e of NotFound \<Rightarrow> ''no such load'' | Conflict \<Rightarrow> ''already booked'')"

text \<open>\<^verbatim>\<open>p in s\<close> on strings.\<close>

fun starts_with :: "string \<Rightarrow> string \<Rightarrow> bool" where
  "starts_with [] s = True"
| "starts_with (p # ps) [] = False"
| "starts_with (p # ps) (c # cs) = (p = c \<and> starts_with ps cs)"

fun str_contains :: "string \<Rightarrow> string \<Rightarrow> bool" where
  "str_contains p [] = starts_with p []"
| "str_contains p (c # cs) = (starts_with p (c # cs) \<or> str_contains p cs)"

text \<open>
  The route \<^verbatim>\<open>create_booking\<close> of \<^verbatim>\<open>app/routes/booked_loads.py\<close>: an error whose
  text contains "already booked" is answered with status 409, any other error with 404.
\<close>

datatype http_response = Response booked_load | HTTPException nat string

definition create_booking ::
  "string \<Rightarrow> string \<Rightarrow> booking_request \<Rightarrow> database \<Rightarrow> http_response \<times> database" where
  "create_booking token now req db =
     (case book_load token now req db of
        (Inl e, db') \<Rightarrow>
          (HTTPException (if str_contains ''already booked'' (error_text e) then 409 else 404)
             (error_text e), db')
      | (Inr result, db') \<Rightarrow> (Response result, db'))"

text \<open>The invariant of the data model: a load that is still available has no booking
  (a booking is created only together with the change of the status, and the status never
  returns to \<open>available\<close>).\<close>

definition no_booking_for_available :: "database \<Rightarrow> bool" where
  "no_booking_for_available db =
     (\<forall>l\<in>set (loads db). status l = ''available'' \<longrightarrow>
        load_id l \<notin> bl_load_id ` set (booked_loads db))"


text \<open>An available load and a booking request, for the examples.\<close>

definition example_load :: load where
  "example_load =
     \<lparr>load_id = ''LD-1001'', load_equipment_type = ''reefer'', status = ''available'',
      origin = ''Dallas'', destination = ''Reno'', loadboard_rate = 1800, booked_at = None\<rparr>"

definition example_request :: "string \<Rightarrow> booking_request" where
  "example_request lid =
     \<lparr>req_load_id = lid, req_mc_number = ''MC-77'', req_agreed_rate = 1750,
      req_carrier_name = None, req_agreed_pickup_datetime = None, req_offer_id = None,
      req_call_id = None\<rparr>"

section \<open>Empty inputs\<close>

text \<open>
  Claim C3. Each of the four aggregations returns the empty list, and raises nothing,
  when the row sets it reads are empty; with every query result empty,
  \<open>get_analytics\<close> returns the snapshot whose four lists are empty.
\<close>

theorem C3_empty_inputs_give_empty_lists:
  "negotiation_depth [] = Inr []
   \<and> carrier_objections [] [] = Inr []
   \<and> top_lanes [] = Inr []
   \<and> equipment_demand_supply [] [] = Inr []
   \<and> get_analytics \<lparr>booked_calls_last_30_days = [], failed_calls_last_30_days = [],
                        all_calls_last_30_days = [], available_loads_by_equipment = [],
                        recent_calls_by_equipment = []\<rparr>
       = Inr \<lparr>negotiation_depth_list = [], carrier_objections_list = [],
              top_lanes_list = [], equipment_demand_supply_list = []\<rparr>"
  by (simp add: negotiation_depth_def carrier_objections_def objection_reasons_def
      top_lanes_def lane_scan_def equipment_demand_supply_def all_types_def get_analytics_def)

section \<open>Counters\<close>

lemma first_seen_Nil [simp]: "first_seen [] = []"
  by (simp add: first_seen_def)

lemma first_seen_snoc:
  "first_seen (ks @ [k]) = (if k \<in> set ks then first_seen ks else first_seen ks @ [k])"
  by (simp add: first_seen_def)

lemma set_first_seen [simp]: "set (first_seen ks) = set ks"
  by (simp add: first_seen_def)

lemma distinct_first_seen [simp]: "distinct (first_seen ks)"
  by (simp add: first_seen_def)

lemma map_fst_counter_incr:
  "map fst (counter_incr k kvs) = (if k \<in> fst ` set kvs then map fst kvs else map fst kvs @ [k])"
proof (induction kvs)
  case Nil
  show ?case by simp
next
  case (Cons kv kvs)
  obtain k' c where kv: "kv = (k', c)" by (cases kv)
  show ?case
  proof (cases "k = k'")
    case True
    then show ?thesis by (simp add: kv)
  next
    case False
    then show ?thesis using Cons.IH by (cases "k \<in> fst ` set kvs") (simp_all add: kv)
  qed
qed

lemma sum_counter_incr: "sum_list (map snd (counter_incr k kvs)) = sum_list (map snd kvs) + 1"
  by (induction kvs) auto

lemma counter_get_incr:
  "counter_get (counter_incr k kvs) k' = counter_get kvs k' + (if k = k' then 1 else 0)"
  by (induction kvs) (auto simp: counter_get_def)

lemma counter_incr_not_Nil [simp]: "counter_incr k kvs \<noteq> []"
  by (cases kvs) (auto split: if_splits)

lemma counter_incr_neq: "counter_incr k kvs \<noteq> kvs"
proof
  assume "counter_incr k kvs = kvs"
  then have "sum_list (map snd (counter_incr k kvs)) = sum_list (map snd kvs)" by simp
  then show False by (simp add: sum_counter_incr)
qed

lemma count_keys_snoc: "count_keys (ks @ [k]) = counter_incr k (count_keys ks)"
  by (simp add: count_keys_def)

lemma keys_count_keys: "map fst (count_keys ks) = first_seen ks"
proof (induction ks rule: rev_induct)
  case Nil
  show ?case by (simp add: count_keys_def)
next
  case (snoc k ks)
  have "fst ` set (count_keys ks) = set ks"
    using snoc by (metis set_first_seen set_map)
  then show ?case
    using snoc by (simp add: count_keys_snoc map_fst_counter_incr first_seen_snoc)
qed

lemma get_count_keys: "counter_get (count_keys ks) k = int (count_list ks k)"
proof (induction ks rule: rev_induct)
  case Nil
  show ?case by (simp add: count_keys_def counter_get_def)
next
  case (snoc x ks)
  then show ?case by (simp add: count_keys_snoc counter_get_incr)
qed

lemma sum_count_keys: "sum_list (map snd (count_keys ks)) = int (length ks)"
  by (induction ks rule: rev_induct) (simp_all add: count_keys_snoc sum_counter_incr count_keys_def)

lemma alist_by_get:
  "distinct (map fst kvs) \<Longrightarrow> map (\<lambda>k. (k, counter_get kvs k)) (map fst kvs) = kvs"
proof (induction kvs)
  case Nil
  show ?case by simp
next
  case (Cons kv kvs)
  obtain k c where kv: "kv = (k, c)" by (cases kv)
  from Cons.prems kv have notin: "k \<notin> fst ` set kvs" and d: "distinct (map fst kvs)" by auto
  have "map (\<lambda>k'. (k', counter_get (kv # kvs) k')) (map fst kvs)
        = map (\<lambda>k'. (k', counter_get kvs k')) (map fst kvs)"
    using notin by (auto simp: counter_get_def kv)
  with Cons.IH [OF d] show ?case by (simp add: kv counter_get_def)
qed

lemma count_keys_eq:
  "count_keys ks = map (\<lambda>k. (k, int (count_list ks k))) (first_seen ks)"
proof -
  have "distinct (map fst (count_keys ks))" by (simp add: keys_count_keys)
  from alist_by_get [OF this] show ?thesis
    by (simp add: keys_count_keys get_count_keys)
qed

lemma count_keys_Nil_iff: "count_keys ks = [] \<longleftrightarrow> ks = []"
  by (cases ks rule: rev_cases) (simp_all add: count_keys_def)

lemma depth_buckets_eq: "depth_buckets booked = count_keys (map depth_key booked)"
  by (simp add: depth_buckets_def count_keys_def fold_map comp_def)

lemma fold_count_reason:
  "fold (count_reason f) calls acc = fold counter_incr (List.map_filter f calls) acc"
  by (induction calls arbitrary: acc) (auto simp: count_reason_def List.map_filter_simps split: option.splits)

lemma objection_reasons_eq:
  "objection_reasons failed all_calls = count_keys (objection_labels failed all_calls)"
  by (simp add: objection_reasons_def fold_count_reason count_keys_def objection_labels_def)

section \<open>Carrier objections: ranking\<close>

lemma map_result_Inr:
  "(\<And>x. x \<in> set xs \<Longrightarrow> f x = Inr (g x)) \<Longrightarrow> map_result f xs = Inr (map g xs)"
  by (induction xs) simp_all

lemma insort_key_map:
  "insort_key f (g x) (map g xs) = map g (insort_key (\<lambda>y. f (g y)) x xs)"
  by (induction xs) simp_all

lemma sort_key_map: "sort_key f (map g xs) = map g (sort_key (\<lambda>y. f (g y)) xs)"
  by (induction xs) (simp_all add: insort_key_map)

lemma sorted_wrt_desc_sort_key:
  "sorted_wrt (\<lambda>a b. f b \<le> f a) (sort_key (\<lambda>x. - f x) xs)" for f :: "'a \<Rightarrow> int"
proof -
  have "sorted (map (\<lambda>x. - f x) (sort_key (\<lambda>x. - f x) xs))" by (rule sorted_sort_key)
  then show ?thesis by (simp add: sorted_map)
qed

lemma carrier_objections_eq:
  "carrier_objections failed all_calls =
     Inr (map (objection_entry (objection_labels failed all_calls))
            (sort_key (\<lambda>l. - int (count_list (objection_labels failed all_calls) l))
               (first_seen (objection_labels failed all_calls))))"
proof (cases "objection_labels failed all_calls = []")
  case True
  then show ?thesis
    by (simp add: carrier_objections_def objection_reasons_eq count_keys_def)
next
  case False
  let ?L = "objection_labels failed all_calls"
  let ?tot = "int (length ?L)"
  have ne: "count_keys ?L \<noteq> []" using False by (simp add: count_keys_Nil_iff)
  have tot: "?tot \<noteq> 0" using False by simp
  have mc: "most_common (count_keys ?L)
            = map (\<lambda>k. (k, int (count_list ?L k))) (sort_key (\<lambda>l. - int (count_list ?L l)) (first_seen ?L))"
    by (simp add: most_common_def count_keys_eq sort_key_map)
  have "map_result
          (\<lambda>(reason, count). case py_pct count ?tot of
               Inl e \<Rightarrow> Inl e
             | Inr p \<Rightarrow> Inr \<lparr>co_reason = reason, co_count = count, co_pct = p\<rparr>)
          (most_common (count_keys ?L))
        = Inr (map (\<lambda>(reason, count). \<lparr>co_reason = reason, co_count = count, co_pct = float_pct count ?tot\<rparr>)
                 (most_common (count_keys ?L)))"
    using False by (intro map_result_Inr) (auto simp: py_pct_def)
  then show ?thesis
    using ne by (simp add: carrier_objections_def objection_reasons_eq sum_count_keys mc
        comp_def objection_entry_def Let_def)
qed

lemma sum_list_insort_key:
  "sum_list (map g (insort_key f x xs)) = g x + sum_list (map g xs)" for g :: "'a \<Rightarrow> int"
  by (induction xs) simp_all

lemma sum_list_sort_key:
  "sum_list (map g (sort_key f xs)) = sum_list (map g xs)" for g :: "'a \<Rightarrow> int"
  by (induction xs) (simp_all add: sum_list_insort_key)

lemma sum_count_first_seen:
  "sum_list (map (\<lambda>k. int (count_list ks k)) (first_seen ks)) = int (length ks)"
proof -
  have "sum_list (map snd (count_keys ks)) = int (length ks)" by (rule sum_count_keys)
  then show ?thesis by (simp add: count_keys_eq comp_def)
qed

lemma length_map_filter: "length (List.map_filter f xs) = length (filter (\<lambda>x. f x \<noteq> None) xs)"
  by (induction xs) (simp_all add: List.map_filter_simps split: option.splits)

lemma map_filter_filter:
  "List.map_filter f (filter (\<lambda>x. f x \<noteq> None) xs) = List.map_filter f xs"
  by (induction xs) (simp_all add: List.map_filter_simps split: option.splits)

lemma failed_reason_None_iff:
  "failed_reason c \<noteq> None \<longleftrightarrow>
     outcome c = Some ''negotiation_failed'' \<or> outcome c = Some ''dropped_call''"
  by (simp add: failed_reason_def)

lemma no_loads_reason_None_iff:
  "no_loads_reason c \<noteq> None \<longleftrightarrow> outcome c = Some ''no_loads_available''"
  by (simp add: no_loads_reason_def)

text \<open>
  Claim C5. The carrier-objections aggregation always returns a list. Its reasons are the
  labels met by the two loops (\<open>negotiation_failed\<close> gives "Rate too low" and
  \<open>dropped_call\<close> gives "Call dropped", both from the failed-calls query;
  \<open>no_loads_available\<close> gives "No matching loads", from the all-calls query), in
  descending order of count, labels of equal count staying in the order in which they were
  first met; each entry carries the number of occurrences of its label and
  \<open>round(count / total * 100)\<close>. For two failed negotiations, one dropped call and
  one call without matching loads the output is "Rate too low" 2 (50), "Call dropped" 1 (25),
  "No matching loads" 1 (25).
\<close>

theorem C5_carrier_objections_ranking:
  "(\<exists>res. carrier_objections failed all_calls = Inr res
      \<and> map co_reason res
          = sort_key (\<lambda>l. - int (count_list (objection_labels failed all_calls) l))
              (first_seen (objection_labels failed all_calls))
      \<and> map co_count res
          = map (\<lambda>l. int (count_list (objection_labels failed all_calls) l)) (map co_reason res)
      \<and> map co_pct res
          = map (\<lambda>l. float_pct (int (count_list (objection_labels failed all_calls) l))
                       (int (length (objection_labels failed all_calls))))
              (map co_reason res)
      \<and> sorted_wrt (\<lambda>a b. co_count b \<le> co_count a) res
      \<and> (\<forall>n. filter (\<lambda>r. co_count r = n) res
             = map (objection_entry (objection_labels failed all_calls))
                 (filter (\<lambda>l. int (count_list (objection_labels failed all_calls) l) = n)
                    (first_seen (objection_labels failed all_calls)))))
   \<and> carrier_objections [call_of_outcome ''negotiation_failed''] []
       = Inr [\<lparr>co_reason = ''Rate too low'', co_count = 1, co_pct = 100\<rparr>]
   \<and> carrier_objections [call_of_outcome ''dropped_call''] []
       = Inr [\<lparr>co_reason = ''Call dropped'', co_count = 1, co_pct = 100\<rparr>]
   \<and> carrier_objections [] [call_of_outcome ''no_loads_available'']
       = Inr [\<lparr>co_reason = ''No matching loads'', co_count = 1, co_pct = 100\<rparr>]
   \<and> carrier_objections
         [call_of_outcome ''negotiation_failed'', call_of_outcome ''dropped_call'',
          call_of_outcome ''negotiation_failed'']
         [call_of_outcome ''negotiation_failed'', call_of_outcome ''no_loads_available'',
          call_of_outcome ''dropped_call'', call_of_outcome ''negotiation_failed'']
       = Inr [\<lparr>co_reason = ''Rate too low'', co_count = 2, co_pct = 50\<rparr>,
              \<lparr>co_reason = ''Call dropped'', co_count = 1, co_pct = 25\<rparr>,
              \<lparr>co_reason = ''No matching loads'', co_count = 1, co_pct = 25\<rparr>]"
proof -
  let ?L = "objection_labels failed all_calls"
  let ?cnt = "\<lambda>l. int (count_list ?L l)"
  let ?res = "map (objection_entry ?L) (sort_key (\<lambda>l. - ?cnt l) (first_seen ?L))"
  have r: "carrier_objections failed all_calls = Inr ?res" by (rule carrier_objections_eq)
  have a: "map co_reason ?res = sort_key (\<lambda>l. - ?cnt l) (first_seen ?L)"
    by (simp add: comp_def objection_entry_def)
  have b: "map co_count ?res = map ?cnt (map co_reason ?res)"
    by (simp add: comp_def objection_entry_def)
  have c: "map co_pct ?res = map (\<lambda>l. float_pct (?cnt l) (int (length ?L))) (map co_reason ?res)"
    by (simp add: comp_def objection_entry_def)
  have d: "sorted_wrt (\<lambda>a b. co_count b \<le> co_count a) ?res"
    using sorted_wrt_desc_sort_key [of ?cnt "first_seen ?L"]
    by (simp add: sorted_wrt_map objection_entry_def)
  have e: "filter (\<lambda>r. co_count r = n) ?res
           = map (objection_entry ?L) (filter (\<lambda>l. ?cnt l = n) (first_seen ?L))" for n
  proof -
    have "filter (\<lambda>l. - ?cnt l = - n) (sort_key (\<lambda>l. - ?cnt l) (first_seen ?L))
          = filter (\<lambda>l. - ?cnt l = - n) (first_seen ?L)"
      by (rule sort_key_stable)
    then show ?thesis by (simp add: filter_map comp_def objection_entry_def)
  qed
  have general: "\<exists>res. carrier_objections failed all_calls = Inr res
      \<and> map co_reason res = sort_key (\<lambda>l. - ?cnt l) (first_seen ?L)
      \<and> map co_count res = map ?cnt (map co_reason res)
      \<and> map co_pct res = map (\<lambda>l. float_pct (?cnt l) (int (length ?L))) (map co_reason res)
      \<and> sorted_wrt (\<lambda>a b. co_count b \<le> co_count a) res
      \<and> (\<forall>n. filter (\<lambda>r. co_count r = n) res
             = map (objection_entry ?L) (filter (\<lambda>l. ?cnt l = n) (first_seen ?L)))"
    using r a b c d e by blast
  have e1: "carrier_objections [call_of_outcome ''negotiation_failed''] []
       = Inr [\<lparr>co_reason = ''Rate too low'', co_count = 1, co_pct = 100\<rparr>]"
    by code_simp
  have e2: "carrier_objections [call_of_outcome ''dropped_call''] []
       = Inr [\<lparr>co_reason = ''Call dropped'', co_count = 1, co_pct = 100\<rparr>]"
    by code_simp
  have e3: "carrier_objections [] [call_of_outcome ''no_loads_available'']
       = Inr [\<lparr>co_reason = ''No matching loads'', co_count = 1, co_pct = 100\<rparr>]"
    by code_simp
  have e4: "carrier_objections
         [call_of_outcome ''negotiation_failed'', call_of_outcome ''dropped_call'',
          call_of_outcome ''negotiation_failed'']
         [call_of_outcome ''negotiation_failed'', call_of_outcome ''no_loads_available'',
          call_of_outcome ''dropped_call'', call_of_outcome ''negotiation_failed'']
       = Inr [\<lparr>co_reason = ''Rate too low'', co_count = 2, co_pct = 50\<rparr>,
              \<lparr>co_reason = ''Call dropped'', co_count = 1, co_pct = 25\<rparr>,
              \<lparr>co_reason = ''No matching loads'', co_count = 1, co_pct = 25\<rparr>]"
    by code_simp
  from general e1 e2 e3 e4 show ?thesis by blast
qed

section \<open>Carrier objections: which rows count\<close>

lemma failed_pred:
  "(\<lambda>c. outcome c = Some ''negotiation_failed'' \<or> outcome c = Some ''dropped_call'')
   = (\<lambda>c. failed_reason c \<noteq> None)"
  by (auto simp: failed_reason_def fun_eq_iff)

lemma no_loads_pred:
  "(\<lambda>c. outcome c = Some ''no_loads_available'') = (\<lambda>c. no_loads_reason c \<noteq> None)"
  by (auto simp: no_loads_reason_def fun_eq_iff)

lemma objection_labels_filter:
  "objection_labels
     (filter (\<lambda>c. outcome c = Some ''negotiation_failed'' \<or> outcome c = Some ''dropped_call'') failed)
     (filter (\<lambda>c. outcome c = Some ''no_loads_available'') all_calls)
   = objection_labels failed all_calls"
  unfolding failed_pred no_loads_pred objection_labels_def
  by (simp only: map_filter_filter)

lemma length_objection_labels:
  "length (objection_labels failed all_calls)
   = length (filter (\<lambda>c. outcome c = Some ''negotiation_failed'' \<or> outcome c = Some ''dropped_call'') failed)
     + length (filter (\<lambda>c. outcome c = Some ''no_loads_available'') all_calls)"
  unfolding failed_pred no_loads_pred objection_labels_def
  by (simp only: length_append length_map_filter)

text \<open>
  Claim C10. In the carrier-objections aggregation only three kinds of rows count: rows of
  the failed-calls input whose outcome is \<open>negotiation_failed\<close> or \<open>dropped_call\<close>,
  and rows of the all-calls input whose outcome is \<open>no_loads_available\<close>. Dropping
  every other row from both inputs leaves the result unchanged; the counts add up to the
  number of those rows, and that number is the denominator of every percentage. A
  \<open>no_loads_available\<close> row in the failed-calls input, and failed or dropped rows in
  the all-calls input, add nothing.
\<close>

theorem C10_only_recognised_outcomes_count:
  "carrier_objections failed all_calls
     = carrier_objections
         (filter (\<lambda>c. outcome c = Some ''negotiation_failed'' \<or> outcome c = Some ''dropped_call'') failed)
         (filter (\<lambda>c. outcome c = Some ''no_loads_available'') all_calls)
   \<and> (\<exists>res. carrier_objections failed all_calls = Inr res
        \<and> sum_list (map co_count res)
            = int (length (filter (\<lambda>c. outcome c = Some ''negotiation_failed''
                                         \<or> outcome c = Some ''dropped_call'') failed))
              + int (length (filter (\<lambda>c. outcome c = Some ''no_loads_available'') all_calls))
        \<and> map co_pct res = map (\<lambda>r. float_pct (co_count r) (sum_list (map co_count res))) res)
   \<and> carrier_objections
        [call_of_outcome ''no_loads_available'', call_of_outcome ''carrier_not_eligible'']
        [call_of_outcome ''negotiation_failed'', call_of_outcome ''dropped_call'',
         call_of_outcome ''booked'']
      = Inr []"
proof -
  let ?F = "filter (\<lambda>c. outcome c = Some ''negotiation_failed'' \<or> outcome c = Some ''dropped_call'') failed"
  let ?A = "filter (\<lambda>c. outcome c = Some ''no_loads_available'') all_calls"
  let ?L = "objection_labels failed all_calls"
  let ?cnt = "\<lambda>l. int (count_list ?L l)"
  let ?res = "map (objection_entry ?L) (sort_key (\<lambda>l. - ?cnt l) (first_seen ?L))"
  have a: "carrier_objections failed all_calls = carrier_objections ?F ?A"
    by (simp only: carrier_objections_eq objection_labels_filter)
  have r: "carrier_objections failed all_calls = Inr ?res" by (rule carrier_objections_eq)
  have s: "sum_list (map co_count ?res) = int (length ?L)"
    using sum_list_sort_key [of ?cnt "\<lambda>l. - ?cnt l" "first_seen ?L"]
    by (simp add: comp_def objection_entry_def sum_count_first_seen)
  have s': "sum_list (map co_count ?res) = int (length ?F) + int (length ?A)"
    using s by (simp add: length_objection_labels)
  have p: "map co_pct ?res = map (\<lambda>r. float_pct (co_count r) (sum_list (map co_count ?res))) ?res"
    unfolding s by (simp add: comp_def objection_entry_def)
  have b: "\<exists>res. carrier_objections failed all_calls = Inr res
        \<and> sum_list (map co_count res) = int (length ?F) + int (length ?A)
        \<and> map co_pct res = map (\<lambda>r. float_pct (co_count r) (sum_list (map co_count res))) res"
    using r s' p by blast
  have c: "carrier_objections
        [call_of_outcome ''no_loads_available'', call_of_outcome ''carrier_not_eligible'']
        [call_of_outcome ''negotiation_failed'', call_of_outcome ''dropped_call'',
         call_of_outcome ''booked'']
      = Inr []"
    by code_simp
  from a b c show ?thesis by blast
qed

section \<open>Negotiation depth: buckets\<close>

lemma sort_first_seen: "sort (first_seen ks) = sorted_list_of_set (set ks)"
proof -
  have "sorted (sort (first_seen ks))" "distinct (sort (first_seen ks))"
       "set (sort (first_seen ks)) = set ks"
    by simp_all
  moreover have "sorted (sorted_list_of_set (set ks))" "distinct (sorted_list_of_set (set ks))"
       "set (sorted_list_of_set (set ks)) = set ks"
    by simp_all
  ultimately show ?thesis by (metis sorted_distinct_set_unique)
qed

lemma negotiation_depth_eq:
  "negotiation_depth booked =
     Inr (map (depth_entry (map depth_key booked))
            (sorted_list_of_set (depth_key ` set booked)))"
proof (cases "booked = []")
  case True
  then show ?thesis by (simp add: negotiation_depth_def)
next
  case False
  let ?ks = "map depth_key booked"
  have keys: "sort (map fst (count_keys ?ks)) = sorted_list_of_set (depth_key ` set booked)"
    using sort_first_seen [of ?ks] by (simp add: keys_count_keys)
  have "map_result
          (\<lambda>key. case py_pct (counter_get (count_keys ?ks) key) (int (length booked)) of
                   Inl e \<Rightarrow> Inl e
                 | Inr p \<Rightarrow> Inr \<lparr>nd_round = depth_labels key, nd_pct = p\<rparr>)
          (sorted_list_of_set (depth_key ` set booked))
        = Inr (map (depth_entry ?ks) (sorted_list_of_set (depth_key ` set booked)))"
    using False
    by (intro map_result_Inr) (simp add: py_pct_def get_count_keys depth_entry_def)
  then show ?thesis
    using False
    by (simp add: negotiation_depth_def depth_buckets_eq sum_count_keys keys Let_def)
qed

lemma negotiation_depth_cong:
  "map depth_key xs = map depth_key ys \<Longrightarrow> negotiation_depth xs = negotiation_depth ys"
proof -
  assume eq: "map depth_key xs = map depth_key ys"
  then have "set (map depth_key xs) = set (map depth_key ys)" by simp
  then have "depth_key ` set xs = depth_key ` set ys" by simp
  with eq show ?thesis by (simp add: negotiation_depth_eq)
qed

text \<open>
  Claim C6. The negotiation-depth aggregation puts every booked call in the bucket
  \<open>min(negotiation_rounds, 3)\<close>, a missing number of rounds counting as 0: it returns
  one bucket per depth that occurs, in ascending order of depth, labelled "1st offer",
  "1 round", "2 rounds", "3 rounds (max)" for the depths 0 to 3, with the share of the calls
  of that depth. A call with 5 rounds has depth 3, and replacing its 5 rounds by 3 changes
  nothing in the result.
\<close>

theorem C6_negotiation_depth_buckets:
  "negotiation_depth booked
     = Inr (map (\<lambda>k. \<lparr>nd_round = depth_labels k,
                       nd_pct = float_pct (int (length (filter (\<lambda>c. depth_key c = k) booked)))
                                  (int (length booked))\<rparr>)
              (sorted_list_of_set (depth_key ` set booked)))
   \<and> depth_key (c\<lparr>negotiation_rounds := None\<rparr>) = 0
   \<and> depth_key (c\<lparr>negotiation_rounds := Some r\<rparr>) = min r 3
   \<and> depth_key (c\<lparr>negotiation_rounds := Some 5\<rparr>) = 3
   \<and> depth_key (c\<lparr>negotiation_rounds := Some 3\<rparr>) = 3
   \<and> negotiation_depth (xs @ c\<lparr>negotiation_rounds := Some 5\<rparr> # ys)
       = negotiation_depth (xs @ c\<lparr>negotiation_rounds := Some 3\<rparr> # ys)
   \<and> negotiation_depth [c\<lparr>negotiation_rounds := Some 5\<rparr>]
       = Inr [\<lparr>nd_round = ''3 rounds (max)'', nd_pct = 100\<rparr>]
   \<and> depth_labels 0 = ''1st offer'' \<and> depth_labels 1 = ''1 round''
   \<and> depth_labels 2 = ''2 rounds'' \<and> depth_labels 3 = ''3 rounds (max)''
   \<and> negotiation_depth
        [call_of_outcome ''booked'' \<lparr>negotiation_rounds := Some 3\<rparr>,
         call_of_outcome ''booked'' \<lparr>negotiation_rounds := Some 0\<rparr>,
         call_of_outcome ''booked'' \<lparr>negotiation_rounds := Some 5\<rparr>,
         call_of_outcome ''booked'',
         call_of_outcome ''booked'' \<lparr>negotiation_rounds := Some 2\<rparr>,
         call_of_outcome ''booked'' \<lparr>negotiation_rounds := Some 1\<rparr>,
         call_of_outcome ''booked'' \<lparr>negotiation_rounds := Some 1\<rparr>,
         call_of_outcome ''booked'' \<lparr>negotiation_rounds := Some 7\<rparr>]
      = Inr [\<lparr>nd_round = ''1st offer'', nd_pct = 25\<rparr>,
             \<lparr>nd_round = ''1 round'', nd_pct = 25\<rparr>,
             \<lparr>nd_round = ''2 rounds'', nd_pct = 12\<rparr>,
             \<lparr>nd_round = ''3 rounds (max)'', nd_pct = 38\<rparr>]"
proof -
  have cnt: "count_list (map depth_key booked) k = length (filter (\<lambda>c. depth_key c = k) booked)" for k
    by (induction booked) simp_all
  have a: "negotiation_depth booked
     = Inr (map (\<lambda>k. \<lparr>nd_round = depth_labels k,
                       nd_pct = float_pct (int (length (filter (\<lambda>c. depth_key c = k) booked)))
                                  (int (length booked))\<rparr>)
              (sorted_list_of_set (depth_key ` set booked)))"
    by (simp add: negotiation_depth_eq depth_entry_def cnt)
  have b: "depth_key (c\<lparr>negotiation_rounds := None\<rparr>) = 0"
    and b': "depth_key (c\<lparr>negotiation_rounds := Some r\<rparr>) = min r 3"
    and c5: "depth_key (c\<lparr>negotiation_rounds := Some 5\<rparr>) = 3"
    and c3: "depth_key (c\<lparr>negotiation_rounds := Some 3\<rparr>) = 3"
    by (simp_all add: depth_key_def)
  have d: "negotiation_depth (xs @ c\<lparr>negotiation_rounds := Some 5\<rparr> # ys)
       = negotiation_depth (xs @ c\<lparr>negotiation_rounds := Some 3\<rparr> # ys)"
    by (rule negotiation_depth_cong) (simp add: c5 c3)
  have e: "negotiation_depth [c\<lparr>negotiation_rounds := Some 5\<rparr>]
       = Inr [\<lparr>nd_round = ''3 rounds (max)'', nd_pct = 100\<rparr>]"
  proof -
    have "float_pct 1 1 = 100" by code_simp
    then show ?thesis by (simp add: negotiation_depth_eq c5 depth_entry_def depth_labels_def)
  qed
  have l: "depth_labels 0 = ''1st offer''" "depth_labels 1 = ''1 round''"
       "depth_labels 2 = ''2 rounds''" "depth_labels 3 = ''3 rounds (max)''"
    by (simp_all add: depth_labels_def)
  have f: "negotiation_depth
        [call_of_outcome ''booked'' \<lparr>negotiation_rounds := Some 3\<rparr>,
         call_of_outcome ''booked'' \<lparr>negotiation_rounds := Some 0\<rparr>,
         call_of_outcome ''booked'' \<lparr>negotiation_rounds := Some 5\<rparr>,
         call_of_outcome ''booked'',
         call_of_outcome ''booked'' \<lparr>negotiation_rounds := Some 2\<rparr>,
         call_of_outcome ''booked'' \<lparr>negotiation_rounds := Some 1\<rparr>,
         call_of_outcome ''booked'' \<lparr>negotiation_rounds := Some 1\<rparr>,
         call_of_outcome ''booked'' \<lparr>negotiation_rounds := Some 7\<rparr>]
      = Inr [\<lparr>nd_round = ''1st offer'', nd_pct = 25\<rparr>,
             \<lparr>nd_round = ''1 round'', nd_pct = 25\<rparr>,
             \<lparr>nd_round = ''2 rounds'', nd_pct = 12\<rparr>,
             \<lparr>nd_round = ''3 rounds (max)'', nd_pct = 38\<rparr>]"
    by code_simp
  from a b b' c5 c3 d e l f show ?thesis by blast
qed

section \<open>Top lanes: which calls count\<close>

lemma lane_step_skip: "\<not> has_both_endpoints c \<Longrightarrow> lane_step c st = st"
  by (auto simp: lane_step_def has_both_endpoints_def)

lemma lane_calls_step:
  "has_both_endpoints c \<Longrightarrow>
     lane_calls (lane_step c st)
       = counter_incr (lane_key (the (lane_origin c)) (the (lane_destination c))) (lane_calls st)"
  by (simp add: lane_step_def has_both_endpoints_def Let_def split: option.splits)

lemma lane_step_changes: "has_both_endpoints c \<Longrightarrow> lane_step c st \<noteq> st"
proof
  assume b: "has_both_endpoints c" and e: "lane_step c st = st"
  from lane_calls_step [OF b, of st] e
  have "counter_incr (lane_key (the (lane_origin c)) (the (lane_destination c))) (lane_calls st)
        = lane_calls st" by simp
  then show False by (simp add: counter_incr_neq)
qed

lemma fold_lane_step_filter:
  "fold lane_step (filter has_both_endpoints calls) st = fold lane_step calls st"
  by (induction calls arbitrary: st) (simp_all add: lane_step_skip)

lemma sum_lane_calls_fold:
  "sum_list (map snd (lane_calls (fold lane_step calls st)))
   = sum_list (map snd (lane_calls st)) + int (length (filter has_both_endpoints calls))"
proof (induction calls arbitrary: st)
  case Nil
  show ?case by simp
next
  case (Cons c calls)
  show ?case
  proof (cases "has_both_endpoints c")
    case True
    then show ?thesis by (simp add: Cons.IH lane_calls_step sum_counter_incr)
  next
    case False
    then show ?thesis by (simp add: Cons.IH lane_step_skip)
  qed
qed

text \<open>
  Claim C8 says that the top-lanes aggregation skips a call if and only if both its origin
  and its destination are absent. A booked call with origin "Dallas" and no destination is
  skipped all the same: the lane counter stays empty and the result is the empty list.
\<close>

theorem C8_counterexample:
  "lane_origin (call_of_outcome ''booked'' \<lparr>lane_origin := Some ''Dallas''\<rparr>) = Some ''Dallas''
   \<and> lane_destination (call_of_outcome ''booked'' \<lparr>lane_origin := Some ''Dallas''\<rparr>) = None
   \<and> lane_calls (lane_scan [call_of_outcome ''booked'' \<lparr>lane_origin := Some ''Dallas''\<rparr>]) = []
   \<and> top_lanes [call_of_outcome ''booked'' \<lparr>lane_origin := Some ''Dallas''\<rparr>] = Inr []"
  by (simp add: call_of_outcome_def lane_scan_def lane_step_def truthy_str_def top_lanes_def)

text \<open>
  Claim C8, amended. The top-lanes aggregation counts a call if and only if both its origin
  and its destination are present and not the empty string; it skips every call that lacks
  either of them. Dropping those calls from the input leaves the result unchanged, and
  the lane counts add up to the number of calls that have both ends.
\<close>

theorem C8_skips_calls_missing_an_endpoint:
  "(lane_step c st \<noteq> st) = (truthy_str (lane_origin c) \<and> truthy_str (lane_destination c))
   \<and> truthy_str None = False \<and> truthy_str (Some []) = False
   \<and> truthy_str (Some (a # s)) = True
   \<and> top_lanes calls
       = top_lanes (filter (\<lambda>c. truthy_str (lane_origin c) \<and> truthy_str (lane_destination c)) calls)
   \<and> sum_list (map snd (lane_calls (lane_scan calls)))
       = int (length (filter (\<lambda>c. truthy_str (lane_origin c) \<and> truthy_str (lane_destination c)) calls))"
proof -
  have p: "(\<lambda>c. truthy_str (lane_origin c) \<and> truthy_str (lane_destination c)) = has_both_endpoints"
    by (simp add: has_both_endpoints_def fun_eq_iff)
  have a: "(lane_step c st \<noteq> st) = (truthy_str (lane_origin c) \<and> truthy_str (lane_destination c))"
    using lane_step_changes [of c st] lane_step_skip [of c st]
    by (auto simp: has_both_endpoints_def)
  have t: "truthy_str None = False" "truthy_str (Some []) = False" "truthy_str (Some (a # s)) = True"
    by (simp_all add: truthy_str_def)
  have b: "top_lanes calls
       = top_lanes (filter (\<lambda>c. truthy_str (lane_origin c) \<and> truthy_str (lane_destination c)) calls)"
    unfolding p by (simp add: top_lanes_def lane_scan_def fold_lane_step_filter)
  have c: "sum_list (map snd (lane_calls (lane_scan calls)))
       = int (length (filter (\<lambda>c. truthy_str (lane_origin c) \<and> truthy_str (lane_destination c)) calls))"
    unfolding p by (simp add: lane_scan_def sum_lane_calls_fold)
  from a t b c show ?thesis by blast
qed

theorem C8_skips_calls_missing_an_endpoint_witness:
  "lane_step (call_of_outcome ''booked'' \<lparr>lane_origin := Some ''Dallas''\<rparr>)
      \<lparr>lane_calls = [], lane_bookings = [], lane_rates = []\<rparr>
     = \<lparr>lane_calls = [], lane_bookings = [], lane_rates = []\<rparr>
   \<and> lane_step (call_of_outcome ''booked'' \<lparr>lane_origin := Some ''Dallas'',
                                               lane_destination := Some ''Reno''\<rparr>)
      \<lparr>lane_calls = [], lane_bookings = [], lane_rates = []\<rparr>
     \<noteq> \<lparr>lane_calls = [], lane_bookings = [], lane_rates = []\<rparr>"
  using C8_skips_calls_missing_an_endpoint
          [of "call_of_outcome ''booked'' \<lparr>lane_origin := Some ''Dallas''\<rparr>"
              "\<lparr>lane_calls = [], lane_bookings = [], lane_rates = []\<rparr>"]
        C8_skips_calls_missing_an_endpoint
          [of "call_of_outcome ''booked'' \<lparr>lane_origin := Some ''Dallas'',
                                            lane_destination := Some ''Reno''\<rparr>"
              "\<lparr>lane_calls = [], lane_bookings = [], lane_rates = []\<rparr>"]
  by (simp add: call_of_outcome_def truthy_str_def)

text \<open>
  Claim C7 at a booked call whose joined \<open>agreed_rate\<close> is 0 and whose own
  \<open>final_rate\<close> is 1500: \<^verbatim>\<open>call.get("agreed_rate") or call.get("final_rate")\<close>
  takes the final rate, and the lane reports "$1,500" instead of the agreed "$0". A non-zero
  agreed rate is used as it is, and a missing one falls back to the final rate.
\<close>

theorem C7_zero_agreed_rate_falls_back:
  "top_lanes [call_of_outcome ''booked''
                \<lparr>lane_origin := Some ''A'', lane_destination := Some ''B'',
                 final_rate := Some 1500, agreed_rate := Some 0\<rparr>]
     = Inr [\<lparr>tl_lane = lane_key ''A'' ''B'', tl_calls = 1, tl_bookings = 1,
             tl_avg_rate = ''$1,500''\<rparr>]
   \<and> top_lanes [call_of_outcome ''booked''
                \<lparr>lane_origin := Some ''A'', lane_destination := Some ''B'',
                 final_rate := Some 1500, agreed_rate := Some 1200\<rparr>]
     = Inr [\<lparr>tl_lane = lane_key ''A'' ''B'', tl_calls = 1, tl_bookings = 1,
             tl_avg_rate = ''$1,200''\<rparr>]
   \<and> top_lanes [call_of_outcome ''booked''
                \<lparr>lane_origin := Some ''A'', lane_destination := Some ''B'',
                 final_rate := Some 1500, agreed_rate := None\<rparr>]
     = Inr [\<lparr>tl_lane = lane_key ''A'' ''B'', tl_calls = 1, tl_bookings = 1,
             tl_avg_rate = ''$1,500''\<rparr>]"
  by code_simp

text \<open>The example of the specification: two calls on A to B, one of them booked at 1000,
  and one call on C to D booked at 500.\<close>

lemma top_lanes_spec_example:
  "top_lanes [call_of_outcome ''booked''
                \<lparr>lane_origin := Some ''A'', lane_destination := Some ''B'', agreed_rate := Some 1000\<rparr>,
              call_of_outcome ''negotiation_failed''
                \<lparr>lane_origin := Some ''A'', lane_destination := Some ''B''\<rparr>,
              call_of_outcome ''booked''
                \<lparr>lane_origin := Some ''C'', lane_destination := Some ''D'', agreed_rate := Some 500\<rparr>]
     = Inr [\<lparr>tl_lane = lane_key ''A'' ''B'', tl_calls = 2, tl_bookings = 1, tl_avg_rate = ''$1,000''\<rparr>,
            \<lparr>tl_lane = lane_key ''C'' ''D'', tl_calls = 1, tl_bookings = 1, tl_avg_rate = ''$500''\<rparr>]"
  by code_simp

section \<open>Rounding error of a percentage\<close>

text \<open>
  Rounding to 53 bits changes a value by at most the fraction \<open>2 ^ -53\<close> of its
  magnitude, so the computed \<^verbatim>\<open>round(count / total * 100)\<close> is less than 1 away from
  the exact percentage whenever \<open>0 \<le> count \<le> total\<close>. The percentages of counts that
  add up to the total therefore add up to 100 with an error below the number of counts.
\<close>

lemma round_half_even_err: "\<bar>of_int (round_half_even x) - x\<bar> \<le> 1 / 2"
proof -
  let ?d = "x - of_int \<lfloor>x\<rfloor>"
  have d: "0 \<le> ?d" "?d < 1" by linarith+
  consider "?d < 1 / 2" | "1 / 2 < ?d" | "?d = 1 / 2" by linarith
  then show ?thesis
  proof cases
    case 1
    then have "round_half_even x = \<lfloor>x\<rfloor>" by (simp add: round_half_even_def Let_def)
    with 1 d show ?thesis by (simp; linarith)
  next
    case 2
    then have "round_half_even x = \<lfloor>x\<rfloor> + 1" by (simp add: round_half_even_def Let_def)
    with 2 d show ?thesis by (simp; linarith)
  next
    case 3
    then have "round_half_even x = \<lfloor>x\<rfloor> \<or> round_half_even x = \<lfloor>x\<rfloor> + 1"
      by (simp add: round_half_even_def Let_def)
    with 3 show ?thesis by (elim disjE; simp; linarith)
  qed
qed

lemma float_exp_lower:
  assumes "x \<noteq> 0"
  shows "2 powi (float_exp x) \<le> \<bar>x\<bar>"
proof -
  obtain p q where pq: "quotient_of \<bar>x\<bar> = (p, q)" by (cases "quotient_of \<bar>x\<bar>")
  have q: "0 < q" using pq by (rule quotient_of_denom_pos)
  have x: "\<bar>x\<bar> = of_int p / of_int q" using pq by (rule quotient_of_div)
  have "0 < \<bar>x\<bar>" using assms by simp
  with x q have p: "0 < p" by (simp add: zero_less_divide_iff)
  let ?d = "bitlen p - bitlen q"
  show ?thesis
  proof (cases "2 powi ?d \<le> \<bar>x\<bar>")
    case True
    then show ?thesis by (simp add: float_exp_def pq)
  next
    case False
    have bp: "1 \<le> bitlen p" using p by (simp add: bitlen_alt_def)
    have bq: "1 \<le> bitlen q" using q by (simp add: bitlen_alt_def)
    have "2 ^ nat (bitlen p - 1) \<le> p" using bitlen_bounds [OF p] by simp
    then have "(of_int (2 ^ nat (bitlen p - 1)) :: rat) \<le> of_int p" by (simp only: of_int_le_iff)
    then have lo: "(2::rat) powi (bitlen p - 1) \<le> of_int p"
      using bp by (simp add: power_int_def)
    have "q < 2 ^ nat (bitlen q)" using bitlen_bounds [OF q] by simp
    then have "(of_int q :: rat) < of_int (2 ^ nat (bitlen q))" by (simp only: of_int_less_iff)
    then have hi: "(of_int q :: rat) \<le> 2 powi (bitlen q)"
      using bq by (simp add: power_int_def)
    have "(2::rat) powi (?d - 1) = 2 powi (bitlen p - 1) / 2 powi (bitlen q)"
      using power_int_diff [of "2::rat" "bitlen p - 1" "bitlen q"] by (simp add: algebra_simps)
    also have "\<dots> \<le> of_int p / 2 powi (bitlen q)"
      using lo by (simp add: divide_right_mono)
    also have "\<dots> \<le> of_int p / of_int q"
      using hi p q by (simp add: divide_left_mono)
    finally have "(2::rat) powi (?d - 1) \<le> \<bar>x\<bar>" by (simp add: x)
    with False show ?thesis by (simp add: float_exp_def pq)
  qed
qed

lemma fl_err: "\<bar>fl x - x\<bar> \<le> \<bar>x\<bar> / 2 ^ 53"
proof (cases "x = 0")
  case True
  then show ?thesis by (simp add: fl_def)
next
  case False
  let ?u = "(2::rat) powi (float_exp x - 52)"
  have u: "0 < ?u" by simp
  have "fl x - x = (of_int (round_half_even (x / ?u)) - x / ?u) * ?u"
    using False u by (simp add: fl_def Let_def algebra_simps)
  then have "\<bar>fl x - x\<bar> = \<bar>of_int (round_half_even (x / ?u)) - x / ?u\<bar> * ?u"
    using u by (simp add: abs_mult)
  also have "\<dots> \<le> (1 / 2) * ?u"
    using round_half_even_err [of "x / ?u"] u by (intro mult_right_mono) simp_all
  also have "(1 / 2) * ?u = 2 powi (float_exp x) / 2 ^ 53"
    using power_int_diff [of "2::rat" "float_exp x" 53]
          power_int_diff [of "2::rat" "float_exp x" 52]
    by simp
  also have "\<dots> \<le> \<bar>x\<bar> / 2 ^ 53"
    using float_exp_lower [OF False] by (simp add: divide_right_mono)
  finally show ?thesis .
qed

lemma fl_err_small:
  assumes "\<bar>x\<bar> \<le> 200"
  shows "\<bar>fl x - x\<bar> \<le> 1 / 1200"
proof -
  have "\<bar>fl x - x\<bar> \<le> \<bar>x\<bar> / 2 ^ 53" by (rule fl_err)
  also have "\<dots> \<le> 200 / 2 ^ 53" using assms by (rule divide_right_mono) simp
  also have "\<dots> \<le> 1 / 1200" by simp
  finally show ?thesis .
qed

lemma float_pct_err:
  assumes "0 \<le> c" "c \<le> t" "0 < t"
  shows "\<bar>of_int (float_pct c t) - 100 * of_int c / of_int t\<bar> < (1::rat)"
proof -
  define q :: rat where "q = of_int c / of_int t"
  define a where "a = fl q"
  define y where "y = fl (a * 100)"
  have q0: "0 \<le> q" and q1: "q \<le> 1" using assms by (simp_all add: q_def)
  have "\<bar>q\<bar> \<le> 200" using q0 q1 by linarith
  then have e1: "\<bar>a - q\<bar> \<le> 1 / 1200" unfolding a_def by (rule fl_err_small)
  have b1: "\<bar>a * 100\<bar> \<le> 200" using e1 q0 q1 by linarith
  then have e2: "\<bar>y - a * 100\<bar> \<le> 1 / 1200" unfolding y_def by (rule fl_err_small)
  have e4: "\<bar>of_int (round_half_even y) - y\<bar> \<le> 1 / 2" by (rule round_half_even_err)
  have main: "\<bar>of_int (round_half_even y) - 100 * q\<bar> < 1" using e1 e2 e4 by linarith
  have eq1: "float_pct c t = round_half_even y"
    unfolding float_pct_def y_def a_def q_def ..
  have eq2: "100 * of_int c / of_int t = 100 * q" unfolding q_def by simp
  show ?thesis unfolding eq1 eq2 by (rule main)
qed

lemma abs_sum_list_less:
  fixes f :: "'a \<Rightarrow> rat"
  assumes "xs \<noteq> []" "\<And>x. x \<in> set xs \<Longrightarrow> \<bar>f x\<bar> < 1"
  shows "\<bar>sum_list (map f xs)\<bar> < of_nat (length xs)"
  using assms
proof (induction xs)
  case Nil
  then show ?case by simp
next
  case (Cons x xs)
  show ?case
  proof (cases "xs = []")
    case True
    then show ?thesis using Cons.prems by simp
  next
    case False
    with Cons have "\<bar>sum_list (map f xs)\<bar> < of_nat (length xs)" by simp
    moreover have "\<bar>f x\<bar> < 1" using Cons.prems by simp
    ultimately show ?thesis by (simp add: abs_if split: if_splits)
  qed
qed

lemma pct_sum_bound:
  fixes cs :: "int list"
  assumes nonneg: "\<And>c. c \<in> set cs \<Longrightarrow> 0 \<le> c" and tot: "sum_list cs = t" and pos: "0 < t"
  shows "\<bar>sum_list (map (\<lambda>c. float_pct c t) cs) - 100\<bar> \<le> int (length cs) - 1"
proof -
  have ne: "cs \<noteq> []" using tot pos by auto
  have le: "c \<le> t" if "c \<in> set cs" for c
    using that nonneg tot by (metis member_le_sum_list)
  let ?f = "\<lambda>c. (of_int (float_pct c t) - 100 * of_int c / of_int t :: rat)"
  have each: "\<bar>?f c\<bar> < 1" if "c \<in> set cs" for c
    using float_pct_err [of c t] nonneg [OF that] le [OF that] pos by simp
  have "sum_list (map ?f cs)
        = of_int (sum_list (map (\<lambda>c. float_pct c t) cs)) - 100 * of_int (sum_list cs) / of_int t"
    by (induction cs) (simp_all add: algebra_simps add_divide_distrib)
  also have "\<dots> = of_int (sum_list (map (\<lambda>c. float_pct c t) cs) - 100)"
    using pos tot by simp
  finally have "\<bar>(of_int (sum_list (map (\<lambda>c. float_pct c t) cs) - 100) :: rat)\<bar> < of_nat (length cs)"
    using abs_sum_list_less [of cs ?f, OF ne each] by simp
  then have "(of_int \<bar>sum_list (map (\<lambda>c. float_pct c t) cs) - 100\<bar> :: rat) < of_int (int (length cs))"
    by simp
  then have "\<bar>sum_list (map (\<lambda>c. float_pct c t) cs) - 100\<bar> < int (length cs)"
    by (simp only: of_int_less_iff)
  then show ?thesis by simp
qed

section \<open>Equipment demand and supply: rows and order\<close>

lemma fl_zero [simp]: "fl 0 = 0"
  by (simp add: fl_def)

lemma round_half_even_zero [simp]: "round_half_even 0 = 0"
  by (simp add: round_half_even_def)

lemma float_pct_zero [simp]: "float_pct 0 t = 0"
  by (simp add: float_pct_def)

lemma total_or_1_nonzero [simp]: "total_or_1 d \<noteq> 0"
  by (simp add: total_or_1_def Let_def)

lemma dict_get_nonneg:
  "\<forall>kv\<in>set d. 0 \<le> snd kv \<Longrightarrow> 0 \<le> dict_get d k"
  by (auto simp: dict_get_def split: option.splits dest!: map_of_SomeD)

lemma dict_get_zero_of_sum_zero:
  assumes "\<forall>kv\<in>set d. 0 \<le> snd kv" "sum_list (map snd d) = 0"
  shows "dict_get d k = 0"
proof (cases "map_of d k")
  case None
  then show ?thesis by (simp add: dict_get_def)
next
  case (Some v)
  then have mem: "(k, v) \<in> set d" by (rule map_of_SomeD)
  then have "v \<in> set (map snd d)" by force
  moreover have "\<forall>x\<in>set (map snd d). 0 \<le> x" using assms(1) by auto
  ultimately have "v \<le> sum_list (map snd d)" by (metis member_le_sum_list)
  moreover have "0 \<le> v" using assms(1) mem by auto
  ultimately show ?thesis using assms(2) Some by (simp add: dict_get_def)
qed

lemma pct_guard:
  assumes "\<forall>kv\<in>set d. 0 \<le> snd kv"
  shows "float_pct (dict_get d k) (total_or_1 d) = guarded_pct (dict_get d k) (sum_list (map snd d))"
proof (cases "sum_list (map snd d) = 0")
  case True
  with assms have "dict_get d k = 0" by (rule dict_get_zero_of_sum_zero)
  with True show ?thesis by (simp add: guarded_pct_def)
next
  case False
  then show ?thesis by (simp add: guarded_pct_def total_or_1_def Let_def)
qed

lemma equipment_row_eq:
  "equipment_row d s eq =
     Inr \<lparr>eq_type = format_equip eq,
          eq_demand = float_pct (dict_get d eq) (total_or_1 d),
          eq_supply = float_pct (dict_get s eq) (total_or_1 s)\<rparr>"
  by (simp add: equipment_row_def py_pct_def)

lemma equipment_demand_supply_eq:
  "equipment_demand_supply d s =
     Inr (sort_key (\<lambda>x. - eq_demand x)
            (map (\<lambda>eq. \<lparr>eq_type = format_equip eq,
                          eq_demand = float_pct (dict_get d eq) (total_or_1 d),
                          eq_supply = float_pct (dict_get s eq) (total_or_1 s)\<rparr>)
               (all_types d s)))"
proof -
  have "map_result (equipment_row d s) (all_types d s)
        = Inr (map (\<lambda>eq. \<lparr>eq_type = format_equip eq,
                          eq_demand = float_pct (dict_get d eq) (total_or_1 d),
                          eq_supply = float_pct (dict_get s eq) (total_or_1 s)\<rparr>) (all_types d s))"
    by (intro map_result_Inr) (simp add: equipment_row_eq)
  then show ?thesis by (simp add: equipment_demand_supply_def)
qed

lemma equipment_demand_supply_spec:
  assumes "\<forall>kv\<in>set d. 0 \<le> snd kv" "\<forall>kv\<in>set s. 0 \<le> snd kv"
  shows "equipment_demand_supply d s =
     Inr (sort_key (\<lambda>x. - eq_demand x) (map (equipment_spec_row d s) (all_types d s)))"
proof -
  have "equipment_spec_row d s
        = (\<lambda>eq. \<lparr>eq_type = format_equip eq,
                   eq_demand = float_pct (dict_get d eq) (total_or_1 d),
                   eq_supply = float_pct (dict_get s eq) (total_or_1 s)\<rparr>)"
    by (simp add: fun_eq_iff equipment_spec_row_def pct_guard [OF assms(1)] pct_guard [OF assms(2)])
  then show ?thesis by (simp add: equipment_demand_supply_eq)
qed

lemma set_all_types [simp]: "set (all_types d s) = fst ` set d \<union> fst ` set s"
  by (simp add: all_types_def)

lemma distinct_all_types [simp]: "distinct (all_types d s)"
  by (simp add: all_types_def)

lemma length_all_types: "length (all_types d s) = card (fst ` set d \<union> fst ` set s)"
  using distinct_card [OF distinct_all_types, of d s] by simp


text \<open>
  Claim C9 says that a type without available loads but with recent calls gets demand 0 and
  a non-zero supply percentage. With no available load at all, one reefer call and 299
  dry-van calls, reefer gets demand 0 and supply \<open>round(1 / 300 * 100) = 0\<close>.
\<close>

theorem C9_counterexample:
  "dict_get [] ''reefer'' = 0
   \<and> dict_get [(''reefer'', 1), (''dry_van'', 299)] ''reefer'' = 1
   \<and> equipment_demand_supply [] [(''reefer'', 1), (''dry_van'', 299)]
       = Inr [\<lparr>eq_type = ''Dry Van'', eq_demand = 0, eq_supply = 100\<rparr>,
              \<lparr>eq_type = ''Reefer'', eq_demand = 0, eq_supply = 0\<rparr>]"
  by code_simp

text \<open>
  Claim C9, amended. For non-negative counts the equipment aggregation returns one row per
  equipment type seen in either source; the demand percentage of a row is
  \<open>round(count / total * 100)\<close> against the total of available loads and its supply
  percentage is the same against the total of recent calls, each being 0 when its own
  total is 0; the rows are in descending order of the demand percentage. A type without
  available loads gets demand 0 and the supply percentage of its calls, which is non-zero
  only when its share of the calls rounds to at least 1.
\<close>

theorem C9_equipment_demand_supply:
  assumes "\<forall>kv\<in>set demand_raw. 0 \<le> snd kv" and "\<forall>kv\<in>set supply_raw. 0 \<le> snd kv"
  shows "\<exists>res. equipment_demand_supply demand_raw supply_raw = Inr res
      \<and> set res = equipment_spec_row demand_raw supply_raw
                      ` (fst ` set demand_raw \<union> fst ` set supply_raw)
      \<and> length res = card (fst ` set demand_raw \<union> fst ` set supply_raw)
      \<and> sorted_wrt (\<lambda>a b. eq_demand b \<le> eq_demand a) res
      \<and> (sum_list (map snd demand_raw) = 0 \<longrightarrow> (\<forall>r\<in>set res. eq_demand r = 0))
      \<and> (sum_list (map snd supply_raw) = 0 \<longrightarrow> (\<forall>r\<in>set res. eq_supply r = 0))
      \<and> (\<forall>eq. dict_get demand_raw eq = 0 \<longrightarrow>
             eq_demand (equipment_spec_row demand_raw supply_raw eq) = 0
             \<and> eq_supply (equipment_spec_row demand_raw supply_raw eq)
                 = guarded_pct (dict_get supply_raw eq) (sum_list (map snd supply_raw)))"
proof -
  let ?rows = "map (equipment_spec_row demand_raw supply_raw) (all_types demand_raw supply_raw)"
  let ?res = "sort_key (\<lambda>x. - eq_demand x) ?rows"
  have r: "equipment_demand_supply demand_raw supply_raw = Inr ?res"
    using assms by (rule equipment_demand_supply_spec)
  have a: "set ?res = equipment_spec_row demand_raw supply_raw
                      ` (fst ` set demand_raw \<union> fst ` set supply_raw)"
    by simp
  have b: "length ?res = card (fst ` set demand_raw \<union> fst ` set supply_raw)"
    by (simp add: length_all_types)
  have c: "sorted_wrt (\<lambda>a b. eq_demand b \<le> eq_demand a) ?res"
    by (rule sorted_wrt_desc_sort_key)
  have d: "sum_list (map snd demand_raw) = 0 \<longrightarrow> (\<forall>r\<in>set ?res. eq_demand r = 0)"
    by (auto simp: equipment_spec_row_def guarded_pct_def)
  have e: "sum_list (map snd supply_raw) = 0 \<longrightarrow> (\<forall>r\<in>set ?res. eq_supply r = 0)"
    by (auto simp: equipment_spec_row_def guarded_pct_def)
  have f: "\<forall>eq. dict_get demand_raw eq = 0 \<longrightarrow>
             eq_demand (equipment_spec_row demand_raw supply_raw eq) = 0
             \<and> eq_supply (equipment_spec_row demand_raw supply_raw eq)
                 = guarded_pct (dict_get supply_raw eq) (sum_list (map snd supply_raw))"
    by (simp add: equipment_spec_row_def guarded_pct_def)
  from r a b c d e f show ?thesis by blast
qed

theorem C9_equipment_demand_supply_witness:
  "dict_get [(''dry_van'', 3)] ''reefer'' = 0
   \<and> eq_demand (equipment_spec_row [(''dry_van'', 3)] [(''reefer'', 1), (''dry_van'', 1)] ''reefer'') = 0
   \<and> eq_supply (equipment_spec_row [(''dry_van'', 3)] [(''reefer'', 1), (''dry_van'', 1)] ''reefer'')
       = guarded_pct 1 2
   \<and> equipment_demand_supply [(''dry_van'', 3)] [(''reefer'', 1), (''dry_van'', 1)]
       = Inr [\<lparr>eq_type = ''Dry Van'', eq_demand = 100, eq_supply = 50\<rparr>,
              \<lparr>eq_type = ''Reefer'', eq_demand = 0, eq_supply = 50\<rparr>]"
proof -
  have h1: "\<forall>kv\<in>set [(''dry_van'', 3::int)]. 0 \<le> snd kv" by simp
  have h2: "\<forall>kv\<in>set [(''reefer'', 1::int), (''dry_van'', 1)]. 0 \<le> snd kv" by simp
  have z: "dict_get [(''dry_van'', 3)] ''reefer'' = 0" by (simp add: dict_get_def)
  have g: "dict_get [(''reefer'', 1), (''dry_van'', 1)] ''reefer'' = 1" by (simp add: dict_get_def)
  from C9_equipment_demand_supply [OF h1 h2] z
  have "eq_demand (equipment_spec_row [(''dry_van'', 3)] [(''reefer'', 1), (''dry_van'', 1)] ''reefer'') = 0
        \<and> eq_supply (equipment_spec_row [(''dry_van'', 3)] [(''reefer'', 1), (''dry_van'', 1)] ''reefer'')
            = guarded_pct (dict_get [(''reefer'', 1), (''dry_van'', 1)] ''reefer'')
                (sum_list (map snd [(''reefer'', 1::int), (''dry_van'', 1)]))"
    by blast
  then have s: "eq_demand (equipment_spec_row [(''dry_van'', 3)] [(''reefer'', 1), (''dry_van'', 1)] ''reefer'') = 0
        \<and> eq_supply (equipment_spec_row [(''dry_van'', 3)] [(''reefer'', 1), (''dry_van'', 1)] ''reefer'')
            = guarded_pct 1 2"
    by (simp add: g)
  have v: "equipment_demand_supply [(''dry_van'', 3)] [(''reefer'', 1), (''dry_van'', 1)]
       = Inr [\<lparr>eq_type = ''Dry Van'', eq_demand = 100, eq_supply = 50\<rparr>,
              \<lparr>eq_type = ''Reefer'', eq_demand = 0, eq_supply = 50\<rparr>]"
    by code_simp
  from z s v show ?thesis by blast
qed

section \<open>Percentages of one list add up to 100\<close>

lemma sum_counts_distinct:
  assumes "distinct xs" "set xs = set ks"
  shows "sum_list (map (\<lambda>k. int (count_list ks k)) xs) = int (length ks)"
proof -
  have "sum_list (map (\<lambda>k. int (count_list ks k)) xs) = (\<Sum>k\<in>set xs. int (count_list ks k))"
    using assms(1) by (rule sum_list_distinct_conv_sum_set)
  also have "\<dots> = int (\<Sum>k\<in>set ks. count_list ks k)" by (simp add: assms(2))
  also have "(\<Sum>k\<in>set ks. count_list ks k) = length ks"
    by (rule sum_count_set) simp_all
  finally show ?thesis .
qed

lemma pct_sum_ok_counts:
  assumes "distinct xs" "set xs = set ks" "ks \<noteq> []"
  shows "pct_sum_ok (map (\<lambda>k. float_pct (int (count_list ks k)) (int (length ks))) xs)"
proof -
  let ?cs = "map (\<lambda>k. int (count_list ks k)) xs"
  have "\<bar>sum_list (map (\<lambda>c. float_pct c (int (length ks))) ?cs) - 100\<bar> \<le> int (length ?cs) - 1"
  proof (rule pct_sum_bound)
    show "0 \<le> c" if "c \<in> set ?cs" for c using that by auto
    show "sum_list ?cs = int (length ks)" using assms(1,2) by (rule sum_counts_distinct)
    show "0 < int (length ks)" using assms(3) by simp
  qed
  then show ?thesis by (simp add: pct_sum_ok_def comp_def)
qed

lemma negotiation_depth_pct_sum:
  assumes "booked \<noteq> []"
  shows "\<exists>res. negotiation_depth booked = Inr res \<and> pct_sum_ok (map nd_pct res)"
proof -
  let ?ks = "map depth_key booked"
  let ?xs = "sorted_list_of_set (depth_key ` set booked)"
  have "pct_sum_ok (map (\<lambda>k. float_pct (int (count_list ?ks k)) (int (length ?ks))) ?xs)"
    using assms by (intro pct_sum_ok_counts) simp_all
  then have "pct_sum_ok (map nd_pct (map (depth_entry ?ks) ?xs))"
    by (simp add: comp_def depth_entry_def)
  then show ?thesis by (simp add: negotiation_depth_eq)
qed

lemma carrier_objections_pct_sum:
  assumes "carrier_objections failed all_calls \<noteq> Inr []"
  shows "\<exists>res. carrier_objections failed all_calls = Inr res \<and> pct_sum_ok (map co_pct res)"
proof -
  let ?L = "objection_labels failed all_calls"
  let ?xs = "sort_key (\<lambda>l. - int (count_list ?L l)) (first_seen ?L)"
  have ne: "?L \<noteq> []"
  proof
    assume "?L = []"
    then have "carrier_objections failed all_calls = Inr []"
      by (simp add: carrier_objections_eq)
    with assms show False by simp
  qed
  have "pct_sum_ok (map (\<lambda>k. float_pct (int (count_list ?L k)) (int (length ?L))) ?xs)"
    using ne by (intro pct_sum_ok_counts) simp_all
  then have "pct_sum_ok (map co_pct (map (objection_entry ?L) ?xs))"
    by (simp add: comp_def objection_entry_def)
  then show ?thesis by (simp add: carrier_objections_eq)
qed

lemma dict_get_Cons:
  "dict_get ((k, v) # d) t = (if t = k then v else dict_get d t)"
  by (simp add: dict_get_def)

lemma dict_get_absent: "k \<notin> fst ` set d \<Longrightarrow> dict_get d k = 0"
  by (simp add: dict_get_def map_of_eq_None_iff [THEN iffD2])

lemma sum_dict_get:
  assumes "distinct (map fst d)" "finite S" "fst ` set d \<subseteq> S"
  shows "(\<Sum>t\<in>S. dict_get d t) = sum_list (map snd d)"
  using assms(1,3)
proof (induction d)
  case Nil
  show ?case by (simp add: dict_get_def)
next
  case (Cons kv d)
  obtain k v where kv: "kv = (k, v)" by (cases kv)
  from Cons.prems kv have k: "k \<notin> fst ` set d" "k \<in> S" and d: "distinct (map fst d)"
    and sub: "fst ` set d \<subseteq> S" by auto
  have IH: "(\<Sum>t\<in>S. dict_get d t) = sum_list (map snd d)" using d sub by (rule Cons.IH)
  have "(\<Sum>t\<in>S. dict_get (kv # d) t) = (\<Sum>t\<in>S. (if t = k then v else 0) + dict_get d t)"
    using dict_get_absent [OF k(1)]
    by (intro sum.cong) (auto simp: kv dict_get_Cons)
  also have "\<dots> = (\<Sum>t\<in>S. if t = k then v else 0) + (\<Sum>t\<in>S. dict_get d t)"
    by (rule sum.distrib)
  also have "(\<Sum>t\<in>S. if t = k then v else 0) = v"
    using assms(2) k(2) by simp
  finally show ?case by (simp add: IH kv)
qed

lemma sum_list_dict_get:
  assumes "distinct (map fst d)" "distinct ts" "fst ` set d \<subseteq> set ts"
  shows "sum_list (map (dict_get d) ts) = sum_list (map snd d)"
proof -
  have "sum_list (map (dict_get d) ts) = (\<Sum>t\<in>set ts. dict_get d t)"
    using assms(2) by (rule sum_list_distinct_conv_sum_set)
  also have "\<dots> = sum_list (map snd d)"
    using assms(1) _ assms(3) by (rule sum_dict_get) simp
  finally show ?thesis .
qed

lemma pct_sum_ok_dict:
  assumes nonneg: "\<forall>kv\<in>set d. 0 \<le> snd kv" and dist: "distinct (map fst d)"
    and nz: "sum_list (map snd d) \<noteq> 0" and ts: "distinct ts" "fst ` set d \<subseteq> set ts"
  shows "pct_sum_ok (map (\<lambda>eq. float_pct (dict_get d eq) (total_or_1 d)) ts)"
proof -
  let ?t = "sum_list (map snd d)"
  let ?cs = "map (dict_get d) ts"
  have "0 \<le> ?t" using nonneg by (intro sum_list_nonneg) auto
  with nz have pos: "0 < ?t" by simp
  have "\<bar>sum_list (map (\<lambda>c. float_pct c ?t) ?cs) - 100\<bar> \<le> int (length ?cs) - 1"
  proof (rule pct_sum_bound)
    show "0 \<le> c" if "c \<in> set ?cs" for c using that dict_get_nonneg [OF nonneg] by auto
    show "sum_list ?cs = ?t" using dist ts by (rule sum_list_dict_get)
    show "0 < ?t" by (rule pos)
  qed
  moreover have "total_or_1 d = ?t" using nz by (simp add: total_or_1_def Let_def)
  ultimately show ?thesis by (simp add: pct_sum_ok_def comp_def)
qed

lemma pct_sum_ok_sort_key:
  "pct_sum_ok (map g (sort_key f xs)) = pct_sum_ok (map g xs)"
  by (simp add: pct_sum_ok_def sum_list_sort_key)

lemma equipment_demand_pct_sum:
  assumes "\<forall>kv\<in>set d. 0 \<le> snd kv" "distinct (map fst d)" "sum_list (map snd d) \<noteq> 0"
  shows "\<exists>res. equipment_demand_supply d s = Inr res \<and> pct_sum_ok (map eq_demand res)"
proof -
  have "pct_sum_ok (map (\<lambda>eq. float_pct (dict_get d eq) (total_or_1 d)) (all_types d s))"
    using assms by (intro pct_sum_ok_dict) simp_all
  then show ?thesis
    by (simp add: equipment_demand_supply_eq pct_sum_ok_sort_key comp_def)
qed

lemma equipment_supply_pct_sum:
  assumes "\<forall>kv\<in>set s. 0 \<le> snd kv" "distinct (map fst s)" "sum_list (map snd s) \<noteq> 0"
  shows "\<exists>res. equipment_demand_supply d s = Inr res \<and> pct_sum_ok (map eq_supply res)"
proof -
  have "pct_sum_ok (map (\<lambda>eq. float_pct (dict_get s eq) (total_or_1 s)) (all_types d s))"
    using assms by (intro pct_sum_ok_dict) simp_all
  then show ?thesis
    by (simp add: equipment_demand_supply_eq pct_sum_ok_sort_key comp_def)
qed


text \<open>
  Claim C4 says that for every non-empty input the percentages of the returned list add up
  to 100 within the number of buckets minus one. The carrier-objections aggregation, given
  one booked call in the all-calls input, returns the empty list, whose percentages add up
  to 0 with no bucket at all; the equipment aggregation, given no available load and one
  reefer call, returns the single demand percentage 0.
\<close>

theorem C4_counterexample:
  "[call_of_outcome ''booked''] \<noteq> []
   \<and> carrier_objections [] [call_of_outcome ''booked''] = Inr []
   \<and> \<not> pct_sum_ok (map co_pct [])
   \<and> [(''reefer'', 1::int)] \<noteq> []
   \<and> equipment_demand_supply [] [(''reefer'', 1)]
       = Inr [\<lparr>eq_type = ''Reefer'', eq_demand = 0, eq_supply = 100\<rparr>]
   \<and> \<not> pct_sum_ok (map eq_demand [\<lparr>eq_type = ''Reefer'', eq_demand = 0, eq_supply = 100\<rparr>])"
proof -
  have a: "carrier_objections [] [call_of_outcome ''booked''] = Inr []" by code_simp
  have b: "equipment_demand_supply [] [(''reefer'', 1)]
       = Inr [\<lparr>eq_type = ''Reefer'', eq_demand = 0, eq_supply = 100\<rparr>]" by code_simp
  have c: "\<not> pct_sum_ok (map co_pct [])" by (simp add: pct_sum_ok_def)
  have d: "\<not> pct_sum_ok (map eq_demand [\<lparr>eq_type = ''Reefer'', eq_demand = 0, eq_supply = 100\<rparr>])"
    by (simp add: pct_sum_ok_def)
  from a b c d show ?thesis by simp
qed

text \<open>
  Claim C4, amended. Whenever the negotiation-depth or the carrier-objections aggregation
  returns a non-empty list, the percentages of that list add up to 100 with an error of at
  most the number of buckets minus one. In the equipment aggregation the demand
  percentages do so whenever the total of available loads is not zero, and the supply
  percentages whenever the total of recent calls is not zero (the counts being those of a
  dict of non-negative numbers). The top-lanes aggregation reports no percentage.
\<close>

theorem C4_percentages_sum_to_100:
  "(booked \<noteq> [] \<longrightarrow>
      (\<exists>res. negotiation_depth booked = Inr res \<and> pct_sum_ok (map nd_pct res)))
   \<and> (carrier_objections failed all_calls \<noteq> Inr [] \<longrightarrow>
      (\<exists>res. carrier_objections failed all_calls = Inr res \<and> pct_sum_ok (map co_pct res)))
   \<and> ((\<forall>kv\<in>set demand_raw. 0 \<le> snd kv) \<and> distinct (map fst demand_raw)
        \<and> sum_list (map snd demand_raw) \<noteq> 0 \<longrightarrow>
      (\<exists>res. equipment_demand_supply demand_raw supply_raw = Inr res
         \<and> pct_sum_ok (map eq_demand res)))
   \<and> ((\<forall>kv\<in>set supply_raw. 0 \<le> snd kv) \<and> distinct (map fst supply_raw)
        \<and> sum_list (map snd supply_raw) \<noteq> 0 \<longrightarrow>
      (\<exists>res. equipment_demand_supply demand_raw supply_raw = Inr res
         \<and> pct_sum_ok (map eq_supply res)))"
  using negotiation_depth_pct_sum [of booked]
        carrier_objections_pct_sum [of failed all_calls]
        equipment_demand_pct_sum [of demand_raw supply_raw]
        equipment_supply_pct_sum [of supply_raw demand_raw]
  by blast

theorem C4_percentages_sum_to_100_witness:
  "[call_of_outcome ''booked'', call_of_outcome ''booked'' \<lparr>negotiation_rounds := Some 2\<rparr>,
    call_of_outcome ''booked'' \<lparr>negotiation_rounds := Some 4\<rparr>] \<noteq> []
   \<and> (\<exists>res. negotiation_depth
               [call_of_outcome ''booked'', call_of_outcome ''booked'' \<lparr>negotiation_rounds := Some 2\<rparr>,
                call_of_outcome ''booked'' \<lparr>negotiation_rounds := Some 4\<rparr>] = Inr res
         \<and> pct_sum_ok (map nd_pct res))
   \<and> carrier_objections [call_of_outcome ''dropped_call''] [] \<noteq> Inr []
   \<and> (\<exists>res. carrier_objections [call_of_outcome ''dropped_call''] [] = Inr res
         \<and> pct_sum_ok (map co_pct res))
   \<and> distinct (map fst [(''reefer'', 1::int), (''flatbed'', 2)])
   \<and> sum_list (map snd [(''reefer'', 1::int), (''flatbed'', 2)]) \<noteq> 0
   \<and> (\<exists>res. equipment_demand_supply [(''reefer'', 1), (''flatbed'', 2)]
                 [(''reefer'', 1), (''flatbed'', 2)] = Inr res
         \<and> pct_sum_ok (map eq_demand res))
   \<and> (\<exists>res. equipment_demand_supply [(''reefer'', 1), (''flatbed'', 2)]
                 [(''reefer'', 1), (''flatbed'', 2)] = Inr res
         \<and> pct_sum_ok (map eq_supply res))"
proof -
  let ?b = "[call_of_outcome ''booked'', call_of_outcome ''booked'' \<lparr>negotiation_rounds := Some 2\<rparr>,
             call_of_outcome ''booked'' \<lparr>negotiation_rounds := Some 4\<rparr>]"
  let ?d = "[(''reefer'', 1::int), (''flatbed'', 2)]"
  have h1: "?b \<noteq> []" by simp
  have h2: "carrier_objections [call_of_outcome ''dropped_call''] [] \<noteq> Inr []" by code_simp
  have h3: "\<forall>kv\<in>set ?d. 0 \<le> snd kv" by simp
  have h4: "distinct (map fst ?d)" by simp
  have h5: "sum_list (map snd ?d) \<noteq> 0" by simp
  from C4_percentages_sum_to_100 [of ?b "[call_of_outcome ''dropped_call'']" "[]" ?d ?d]
    h1 h2 h3 h4 h5
  show ?thesis by blast
qed

section \<open>Booking a load\<close>

lemma find_map_update:
  "find (\<lambda>l. load_id l = lid)
     (map (\<lambda>l. if load_id l = lid then l\<lparr>status := s, booked_at := b\<rparr> else l) ls)
   = map_option (\<lambda>l. l\<lparr>status := s, booked_at := b\<rparr>) (find (\<lambda>l. load_id l = lid) ls)"
  by (induction ls) simp_all

lemma find_SomeD: "find P xs = Some x \<Longrightarrow> x \<in> set xs \<and> P x"
  by (induction xs) (auto split: if_splits)

lemma book_load_not_found:
  "get_load_by_id db (req_load_id req) = None \<Longrightarrow> book_load token now req db = (Inl NotFound, db)"
  by (simp add: book_load_def)

lemma book_load_conflict:
  "get_load_by_id db (req_load_id req) = Some l \<Longrightarrow> status l \<noteq> ''available'' \<Longrightarrow>
     book_load token now req db = (Inl Conflict, db)"
  by (simp add: book_load_def)

lemma book_load_success:
  assumes "get_load_by_id db (req_load_id req) = Some l" "status l = ''available''"
  shows "book_load token now req db
         = (Inr (fst (insert_booked_load token now req db)), snd (insert_booked_load token now req db))"
  using assms by (simp add: book_load_def split: prod.splits)

lemma get_load_after_insert:
  assumes "get_load_by_id db (req_load_id req) = Some l"
  shows "get_load_by_id (snd (insert_booked_load token now req db)) (req_load_id req)
         = Some (l\<lparr>status := ''booked'', booked_at := Some now\<rparr>)"
  using assms by (simp add: get_load_by_id_def insert_booked_load_def Let_def find_map_update)

lemma rows_after_insert:
  "filter (\<lambda>b. bl_load_id b = req_load_id req)
     (booked_loads (snd (insert_booked_load token now req db)))
   = filter (\<lambda>b. bl_load_id b = req_load_id req) (booked_loads db)
     @ [fst (insert_booked_load token now req db)]"
  by (simp add: insert_booked_load_def Let_def)

lemma no_rows_if_available:
  assumes "no_booking_for_available db" "get_load_by_id db lid = Some l" "status l = ''available''"
  shows "filter (\<lambda>b. bl_load_id b = lid) (booked_loads db) = []"
proof -
  from assms(2) have "l \<in> set (loads db)" "load_id l = lid"
    using find_SomeD [of "\<lambda>l. load_id l = lid" "loads db" l] by (simp_all add: get_load_by_id_def)
  with assms(1,3) have "lid \<notin> bl_load_id ` set (booked_loads db)"
    by (auto simp: no_booking_for_available_def)
  then show ?thesis by (auto simp: filter_empty_conv)
qed

lemma invariant_after_insert:
  assumes "no_booking_for_available db"
  shows "no_booking_for_available (snd (insert_booked_load token now req db))"
  using assms
  by (auto simp: no_booking_for_available_def insert_booked_load_def Let_def split: if_splits)

text \<open>\<open>insert_booked_load\<close> on its own does not look at the status: run twice for the
  same load, it leaves two booking rows.\<close>

lemma insert_booked_load_twice:
  "length (filter (\<lambda>b. bl_load_id b = req_load_id req)
     (booked_loads (snd (insert_booked_load token2 now2 req
        (snd (insert_booked_load token now req db))))))
   = length (filter (\<lambda>b. bl_load_id b = req_load_id req) (booked_loads db)) + 2"
  by (simp add: insert_booked_load_def Let_def)



text \<open>
  Claim C1. In a database where no available load has a booking, \<open>book_load\<close> for a
  load whose status is \<open>available\<close> succeeds; afterwards the load reads \<open>booked\<close>,
  exactly one booking row exists for that \<open>load_id\<close>, and any further \<open>book_load\<close> for
  the same \<open>load_id\<close> fails with \<open>Conflict\<close> and changes nothing, which the route
  answers with 409. A \<open>book_load\<close> whose \<open>load_id\<close> matches no load fails with
  \<open>NotFound\<close> and changes nothing, which the route answers with 404; the two failures
  are different outcomes.
\<close>

theorem C1_book_load_exactly_once:
  "(no_booking_for_available db
      \<and> get_load_by_id db (req_load_id req) = Some l \<and> status l = ''available''
      \<and> req_load_id req2 = req_load_id req
    \<longrightarrow>
      (\<exists>row db'.
          book_load token now req db = (Inr row, db')
        \<and> bl_load_id row = req_load_id req
        \<and> get_load_by_id db' (req_load_id req)
            = Some (l\<lparr>status := ''booked'', booked_at := Some now\<rparr>)
        \<and> filter (\<lambda>b. bl_load_id b = req_load_id req) (booked_loads db') = [row]
        \<and> book_load token2 now2 req2 db' = (Inl Conflict, db')
        \<and> fst (create_booking token2 now2 req2 db') = HTTPException 409 ''already booked''
        \<and> no_booking_for_available db'))
   \<and> (get_load_by_id db (req_load_id req) = None
    \<longrightarrow>
      book_load token now req db = (Inl NotFound, db)
      \<and> create_booking token now req db = (HTTPException 404 ''no such load'', db))
   \<and> NotFound \<noteq> Conflict"
proof -
  have first: "\<exists>row db'.
          book_load token now req db = (Inr row, db')
        \<and> bl_load_id row = req_load_id req
        \<and> get_load_by_id db' (req_load_id req)
            = Some (l\<lparr>status := ''booked'', booked_at := Some now\<rparr>)
        \<and> filter (\<lambda>b. bl_load_id b = req_load_id req) (booked_loads db') = [row]
        \<and> book_load token2 now2 req2 db' = (Inl Conflict, db')
        \<and> fst (create_booking token2 now2 req2 db') = HTTPException 409 ''already booked''
        \<and> no_booking_for_available db'"
    if inv: "no_booking_for_available db"
      and l: "get_load_by_id db (req_load_id req) = Some l" and av: "status l = ''available''"
      and same: "req_load_id req2 = req_load_id req"
  proof -
    let ?row = "fst (insert_booked_load token now req db)"
    let ?db' = "snd (insert_booked_load token now req db)"
    have a: "book_load token now req db = (Inr ?row, ?db')"
      using l av by (rule book_load_success)
    have b: "bl_load_id ?row = req_load_id req"
      by (simp add: insert_booked_load_def Let_def)
    have c: "get_load_by_id ?db' (req_load_id req)
             = Some (l\<lparr>status := ''booked'', booked_at := Some now\<rparr>)"
      using l by (rule get_load_after_insert)
    have d: "filter (\<lambda>b. bl_load_id b = req_load_id req) (booked_loads ?db') = [?row]"
      using no_rows_if_available [OF inv l av] by (simp add: rows_after_insert)
    have e: "book_load token2 now2 req2 ?db' = (Inl Conflict, ?db')"
    proof (rule book_load_conflict)
      show "get_load_by_id ?db' (req_load_id req2)
            = Some (l\<lparr>status := ''booked'', booked_at := Some now\<rparr>)"
        using c same by simp
      show "status (l\<lparr>status := ''booked'', booked_at := Some now\<rparr>) \<noteq> ''available''"
        by simp
    qed
    have f: "fst (create_booking token2 now2 req2 ?db') = HTTPException 409 ''already booked''"
      by (simp add: create_booking_def e error_text_def)
    have g: "no_booking_for_available ?db'"
      using inv by (rule invariant_after_insert)
    from a b c d e f g show ?thesis by blast
  qed
  have second: "book_load token now req db = (Inl NotFound, db)
      \<and> create_booking token now req db = (HTTPException 404 ''no such load'', db)"
    if "get_load_by_id db (req_load_id req) = None"
    using book_load_not_found [OF that, of token now]
    by (simp add: create_booking_def error_text_def)
  from first second show ?thesis by blast
qed

theorem C1_book_load_exactly_once_witness:
  "(\<exists>row db'.
       book_load ''9f3c2a1b'' ''2026-01-05T10:00:00''
         (example_request ''LD-1001'') \<lparr>loads = [example_load], booked_loads = []\<rparr>
         = (Inr row, db')
     \<and> get_load_by_id db' ''LD-1001''
         = Some (example_load\<lparr>status := ''booked'', booked_at := Some ''2026-01-05T10:00:00''\<rparr>)
     \<and> filter (\<lambda>b. bl_load_id b = ''LD-1001'') (booked_loads db') = [row]
     \<and> book_load ''77aa00ff'' ''2026-01-05T10:00:01'' (example_request ''LD-1001'') db'
         = (Inl Conflict, db'))
   \<and> book_load ''9f3c2a1b'' ''2026-01-05T10:00:00''
         (example_request ''LD-9999'') \<lparr>loads = [example_load], booked_loads = []\<rparr>
         = (Inl NotFound, \<lparr>loads = [example_load], booked_loads = []\<rparr>)"
proof -
  let ?db = "\<lparr>loads = [example_load], booked_loads = []\<rparr>"
  have h1: "no_booking_for_available ?db" by (simp add: no_booking_for_available_def)
  have h2: "get_load_by_id ?db (req_load_id (example_request ''LD-1001'')) = Some example_load"
    by (simp add: get_load_by_id_def example_request_def example_load_def)
  have h3: "status example_load = ''available''" by (simp add: example_load_def)
  have h4: "get_load_by_id ?db (req_load_id (example_request ''LD-9999'')) = None"
    by (simp add: get_load_by_id_def example_request_def example_load_def)
  have id: "req_load_id (example_request ''LD-1001'') = ''LD-1001''"
    by (simp add: example_request_def)
  from C1_book_load_exactly_once
         [of ?db "example_request ''LD-1001''" example_load "example_request ''LD-1001''"
             "''9f3c2a1b''" "''2026-01-05T10:00:00''" "''77aa00ff''" "''2026-01-05T10:00:01''"]
       h1 h2 h3
  have a: "\<exists>row db'.
       book_load ''9f3c2a1b'' ''2026-01-05T10:00:00'' (example_request ''LD-1001'') ?db = (Inr row, db')
     \<and> get_load_by_id db' ''LD-1001''
         = Some (example_load\<lparr>status := ''booked'', booked_at := Some ''2026-01-05T10:00:00''\<rparr>)
     \<and> filter (\<lambda>b. bl_load_id b = ''LD-1001'') (booked_loads db') = [row]
     \<and> book_load ''77aa00ff'' ''2026-01-05T10:00:01'' (example_request ''LD-1001'') db'
         = (Inl Conflict, db')"
    unfolding id by blast
  from C1_book_load_exactly_once
         [of ?db "example_request ''LD-9999''" example_load "example_request ''LD-9999''"
             "''9f3c2a1b''" "''2026-01-05T10:00:00''" "''77aa00ff''" "''2026-01-05T10:00:01''"]
       h4
  have b: "book_load ''9f3c2a1b'' ''2026-01-05T10:00:00'' (example_request ''LD-9999'') ?db
           = (Inl NotFound, ?db)"
    by blast
  from a b show ?thesis by blast
qed

end
